theory Spec2Isabelle
  imports Complex_Main "HOL-Library.Word"
begin

unbundle bit_operations_syntax

section \<open>The SHT1x driver (src/SHT1x.cpp) as HOL functions\<close>

text \<open>
  The driver is one C++ class. Its member functions become functions on a record
  \<open>machine\<close>, which holds the fields of the object together with the board the
  object talks to: what the data line and the millisecond clock will answer, how many
  answers have been consumed, and the list of everything written so far.

  Numbers.
  \<^item> \<open>float\<close> is modelled by \<open>real\<close>: the arithmetic is exact, rounding is not
    modelled. The theorems are about which formula the code evaluates.
  \<^item> \<open>int\<close> has the width of the board's processor, \<open>INT_BITS\<close>: 16 bits (the
    AVR boards) or more. A value of type \<open>int\<close> is an \<open>int\<close> here, and where the
    code computes on \<open>int\<close> (\<open>ret*2 + bit\<close>, \<open>val *= 256\<close>) or converts to
    \<open>int\<close> (the 16-bit member \<open>_temperatureRaw\<close>), the result is wrapped to that
    width in two's complement (\<open>as_int\<close>): on a 16-bit \<open>int\<close> \<open>val *= 256\<close>
    overflows for a high byte of 128 or more, and the compilers of these boards wrap.
  \<^item> \<open>uint8_t\<close> is \<open>8 word\<close>, \<open>unsigned long\<close> (the type of \<open>millis()\<close>)
    is \<open>32 word\<close>: conversions to them and subtraction on them wrap.
  \<^item> A member that no statement has assigned yet holds \<open>None\<close>. Arithmetic on
    such a value gives \<open>None\<close> again (\<open>fadd\<close>, \<open>fsub\<close>, \<open>fmul\<close>), and so
    the conversions, which are called on members, take and return values that may be
    \<open>None\<close>.
\<close>

subsection \<open>Values that may never have been assigned\<close>

type_synonym cfloat = "real option"
type_synonym cint = "int option"

definition fadd :: "cfloat \<Rightarrow> cfloat \<Rightarrow> cfloat" where
  "fadd a b = (case a of None \<Rightarrow> None | Some x \<Rightarrow> (case b of None \<Rightarrow> None | Some y \<Rightarrow> Some (x + y)))"

definition fsub :: "cfloat \<Rightarrow> cfloat \<Rightarrow> cfloat" where
  "fsub a b = (case a of None \<Rightarrow> None | Some x \<Rightarrow> (case b of None \<Rightarrow> None | Some y \<Rightarrow> Some (x - y)))"

definition fmul :: "cfloat \<Rightarrow> cfloat \<Rightarrow> cfloat" where
  "fmul a b = (case a of None \<Rightarrow> None | Some x \<Rightarrow> (case b of None \<Rightarrow> None | Some y \<Rightarrow> Some (x * y)))"

text \<open>The conversion \<open>int\<close> to \<open>float\<close>, and back (C++ truncates towards zero).\<close>

definition int_to_float :: "cint \<Rightarrow> cfloat" where
  "int_to_float a = (case a of None \<Rightarrow> None | Some i \<Rightarrow> Some (of_int i))"

definition float_to_int :: "cfloat \<Rightarrow> cint" where
  "float_to_int a =
     (case a of None \<Rightarrow> None
      | Some x \<Rightarrow> Some (if 0 \<le> x then \<lfloor>x\<rfloor> else \<lceil>x\<rceil>))"

text \<open>\<open>x\<close> as an \<open>int\<close> of \<open>bits\<close> bits: two's complement, wrapping.\<close>

definition as_int :: "nat \<Rightarrow> int \<Rightarrow> int" where
  "as_int bits x = signed_take_bit (bits - 1) x"

subsection \<open>The board: pins, clock, serial port\<close>

datatype pin_mode = INPUT | OUTPUT | INPUT_PULLUP

abbreviation HIGH :: bool where "HIGH \<equiv> True"
abbreviation LOW :: bool where "LOW \<equiv> False"

datatype event =
    PinMode int pin_mode
  | DigitalWrite int bool
  | SerialPrintln real

text \<open>
  Modelled from the spec: the declaration of the class is in SHT1x.h, which is not
  under src/. The members are the ones SHT1x.cpp uses, with the types of their uses;
  \<open>_temperatureRaw\<close>, which the spec calls a 16-bit unsigned value, is a
  \<open>16 word\<close>. The members come first in the record, the board after them.

  The board: \<open>wider\<close> is the number of bits its \<open>int\<close> has beyond the 16 that
  C++ guarantees (0 on AVR, 16 where \<open>int\<close> has 32 bits); \<open>line m pin n\<close> is the level the \<open>n\<close>-th call of
  \<open>digitalRead\<close> finds on \<open>pin\<close>, \<open>clock m n\<close> is what the \<open>n\<close>-th call of
  \<open>millis\<close> returns; \<open>reads\<close> and \<open>ticks\<close> count the calls made so far, and
  \<open>events\<close> lists every \<open>pinMode\<close>, \<open>digitalWrite\<close> and \<open>Serial.println\<close>
  in order.
\<close>

record machine =
  dataPin :: int
  clockPin :: int
  dataInputMode :: pin_mode
  D1C :: cfloat
  D1F :: cfloat
  D2C :: cfloat
  D2F :: cfloat
  temperatureRaw :: "16 word option"
  wider :: nat
  line :: "int \<Rightarrow> nat \<Rightarrow> bool"
  clock :: "nat \<Rightarrow> 32 word"
  reads :: nat
  ticks :: nat
  events :: "event list"

definition INT_BITS :: "machine \<Rightarrow> nat" where
  "INT_BITS m = 16 + wider m"

definition pinMode :: "int \<Rightarrow> pin_mode \<Rightarrow> machine \<Rightarrow> machine" where
  "pinMode pin mode m = m\<lparr>events := events m @ [PinMode pin mode]\<rparr>"

definition digitalWrite :: "int \<Rightarrow> bool \<Rightarrow> machine \<Rightarrow> machine" where
  "digitalWrite pin v m = m\<lparr>events := events m @ [DigitalWrite pin v]\<rparr>"

text \<open>\<open>digitalRead\<close> returns the \<open>int\<close> 1 for HIGH and 0 for LOW.\<close>

definition digitalRead :: "int \<Rightarrow> machine \<Rightarrow> int \<times> machine" where
  "digitalRead pin m =
     ((if line m pin (reads m) then 1 else 0), m\<lparr>reads := Suc (reads m)\<rparr>)"

definition millis :: "machine \<Rightarrow> 32 word \<times> machine" where
  "millis m = (clock m (ticks m), m\<lparr>ticks := Suc (ticks m)\<rparr>)"

definition Serial_println :: "real \<Rightarrow> machine \<Rightarrow> machine" where
  "Serial_println x m = m\<lparr>events := events m @ [SerialPrintln x]\<rparr>"

text \<open>
  \<open>shiftOut(dataPin, clockPin, MSBFIRST, val)\<close> of the Arduino core: for
  \<open>i = 0..7\<close> it writes bit \<open>7 - i\<close> of \<open>val\<close> to the data pin and pulses the
  clock pin. \<open>i\<close> below counts the bits still to send.
\<close>

fun shiftOut_MSBFIRST :: "int \<Rightarrow> int \<Rightarrow> 8 word \<Rightarrow> nat \<Rightarrow> machine \<Rightarrow> machine" where
  "shiftOut_MSBFIRST dPin cPin val 0 m = m"
| "shiftOut_MSBFIRST dPin cPin val (Suc i) m =
     shiftOut_MSBFIRST dPin cPin val i
       (digitalWrite cPin LOW (digitalWrite cPin HIGH (digitalWrite dPin (bit val i) m)))"

definition shiftOut :: "int \<Rightarrow> int \<Rightarrow> 8 word \<Rightarrow> machine \<Rightarrow> machine" where
  "shiftOut dPin cPin val m = shiftOut_MSBFIRST dPin cPin val 8 m"

subsection \<open>Calibration: \<open>_setConversionCoeffs\<close> and \<open>_linearInterpolation\<close>\<close>

definition DEFAULT_VOLTAGE :: real where
  "DEFAULT_VOLTAGE = 5"

definition VALS_IN_TABLE :: nat where
  "VALS_IN_TABLE = 5"

definition coeffsC :: "real list" where
  "coeffsC = [40.1, 39.8, 39.7, 39.6, 39.4]"

definition coeffsF :: "real list" where
  "coeffsF = [40.2, 39.6, 39.5, 39.3, 38.9]"

definition vals :: "real list" where
  "vals = [5, 4, 3.5, 3, 2.5]"

definition linearInterpolation :: "real \<Rightarrow> real \<Rightarrow> real \<Rightarrow> real \<Rightarrow> machine \<Rightarrow> real \<times> machine" where
  "linearInterpolation coeffA coeffB valA input m =
     (let m = Serial_println ((coeffA - coeffB) / valA * input + coeffB) m
      in ((coeffA - coeffB) / valA * input + coeffB, m))"

text \<open>
  The loop \<open>for (int i=1; i<VALS_IN_TABLE; i++)\<close> with its \<open>break\<close>: the branch
  that assigns does not recur.
\<close>

function setConversionCoeffs_loop :: "real \<Rightarrow> nat \<Rightarrow> machine \<Rightarrow> machine" where
  "setConversionCoeffs_loop voltage i m =
     (if i < VALS_IN_TABLE then
        (if voltage > vals ! i then
           (case linearInterpolation (coeffsC ! (i - 1)) (coeffsC ! i) (vals ! (i - 1)) voltage m of
              (c, m) \<Rightarrow>
                (case linearInterpolation (coeffsF ! (i - 1)) (coeffsF ! i) (vals ! (i - 1)) voltage
                        (m\<lparr>D1C := Some (- c)\<rparr>) of
                   (f, m) \<Rightarrow> m\<lparr>D1F := Some (- f)\<rparr>))
         else setConversionCoeffs_loop voltage (i + 1) m)
      else m)"
  by pat_completeness auto
termination
  by (relation "measure (\<lambda>(voltage, i, m). VALS_IN_TABLE - i)") auto

definition setConversionCoeffs :: "real \<Rightarrow> machine \<Rightarrow> machine" where
  "setConversionCoeffs voltage m =
     setConversionCoeffs_loop voltage 1 (m\<lparr>D2C := Some 0.01, D2F := Some 0.018\<rparr>)"

text \<open>The two constructors.\<close>

definition SHT1x :: "int \<Rightarrow> int \<Rightarrow> machine \<Rightarrow> machine" where
  "SHT1x dPin cPin m =
     setConversionCoeffs DEFAULT_VOLTAGE
       (m\<lparr>dataPin := dPin, clockPin := cPin, dataInputMode := INPUT\<rparr>)"

definition SHT1x_voltage :: "int \<Rightarrow> int \<Rightarrow> real \<Rightarrow> bool \<Rightarrow> machine \<Rightarrow> machine" where
  "SHT1x_voltage dPin cPin voltage intPullup m =
     setConversionCoeffs voltage
       (m\<lparr>dataPin := dPin, clockPin := cPin,
          dataInputMode := (if intPullup then INPUT_PULLUP else INPUT)\<rparr>)"

subsection \<open>Conversion of raw samples\<close>

definition parseTemperatureC :: "cint \<Rightarrow> machine \<Rightarrow> cfloat \<times> machine" where
  "parseTemperatureC raw m = (fadd (fmul (int_to_float raw) (D2C m)) (D1C m), m)"

definition parseTemperatureF :: "cint \<Rightarrow> machine \<Rightarrow> cfloat \<times> machine" where
  "parseTemperatureF raw m = (fadd (fmul (int_to_float raw) (D2F m)) (D1F m), m)"

text \<open>
  \<open>parseHumidity\<close> passes the member \<open>_temperatureRaw\<close> to \<open>parseTemperatureC\<close>,
  whose parameter is an \<open>int\<close>: a conversion of the 16-bit value to \<open>int\<close>.
\<close>

definition parseHumidity :: "cint \<Rightarrow> machine \<Rightarrow> cfloat \<times> machine" where
  "parseHumidity raw m =
     (let C1 = Some (- 4.0);
          C2 = Some 0.0405;
          C3 = Some (- 0.0000028);
          T1 = Some 0.01;
          T2 = Some 0.00008;
          linearHumidity =
            fadd (fadd C1 (fmul C2 (int_to_float raw)))
                 (fmul (fmul C3 (int_to_float raw)) (int_to_float raw))
      in (case parseTemperatureC
                 (map_option (\<lambda>t. as_int (INT_BITS m) (uint t)) (temperatureRaw m)) m of
            (temperature, m) \<Rightarrow>
              (let correctedHumidity =
                     fadd (fmul (fsub temperature (Some 25.0))
                                (fadd T1 (fmul T2 (int_to_float raw))))
                          linearHumidity
               in (correctedHumidity, m))))"

subsection \<open>The two-wire protocol\<close>

text \<open>
  \<open>shiftIn\<close>: the loop \<open>for (i=0; i<_numBits; ++i)\<close> on the \<open>int\<close>s \<open>i\<close>
  and \<open>ret\<close>; the function returns \<open>ret\<close> as a \<open>uint8_t\<close>.
\<close>

function shiftIn_loop :: "int \<Rightarrow> int \<Rightarrow> int \<Rightarrow> int \<Rightarrow> int \<Rightarrow> machine \<Rightarrow> int \<times> machine" where
  "shiftIn_loop dPin cPin numBits i ret m =
     (if i < numBits then
        (let m = digitalWrite cPin HIGH m
         in (case digitalRead dPin m of
               (b, m) \<Rightarrow>
                 (let ret = as_int (INT_BITS m) (ret * 2 + b);
                      m = digitalWrite cPin LOW m
                  in shiftIn_loop dPin cPin numBits (i + 1) ret m)))
      else (ret, m))"
  by pat_completeness auto
termination
  by (relation "measure (\<lambda>(dPin, cPin, numBits, i, ret, m). nat (numBits - i))") auto

definition shiftIn :: "int \<Rightarrow> int \<Rightarrow> int \<Rightarrow> machine \<Rightarrow> 8 word \<times> machine" where
  "shiftIn dPin cPin numBits m =
     (case shiftIn_loop dPin cPin numBits 0 0 m of
        (ret, m) \<Rightarrow> (word_of_int ret, m))"

text \<open>
  \<open>sendCommandSHT\<close>: the start sequence, the command byte, and the two reads of
  the acknowledgment into the local \<open>ack\<close>, which nothing uses afterwards.
\<close>

definition sendCommandSHT :: "int \<Rightarrow> int \<Rightarrow> int \<Rightarrow> machine \<Rightarrow> machine" where
  "sendCommandSHT command dPin cPin m =
     (let m = pinMode dPin OUTPUT m;
          m = pinMode cPin OUTPUT m;
          m = digitalWrite dPin HIGH m;
          m = digitalWrite cPin HIGH m;
          m = digitalWrite dPin LOW m;
          m = digitalWrite cPin LOW m;
          m = digitalWrite cPin HIGH m;
          m = digitalWrite dPin HIGH m;
          m = digitalWrite cPin LOW m;
          m = shiftOut dPin cPin (word_of_int command) m;
          m = digitalWrite cPin HIGH m;
          m = pinMode dPin (dataInputMode m) m
      in (case digitalRead dPin m of
            (ack, m) \<Rightarrow>
              (let m = digitalWrite cPin LOW m
               in (case digitalRead dPin m of
                     (ack, m) \<Rightarrow> m))))"

text \<open>
  \<open>waitForResultSHT\<close>. The loop
  \<open>while (digitalRead(_dataPin) && (millis()-start) < TIMEOUT_MILLIS);\<close> may run
  forever, so it is a partial function: \<open>None\<close> is the loop that never ends.
  \<open>&&\<close> calls \<open>millis\<close> only when the line read HIGH. \<open>TIMEOUT_MILLIS\<close> is
  a macro of SHT1x.h, which is not under src/: it is the parameter \<open>tmo\<close>.
\<close>

partial_function (option) waitForResultSHT_loop ::
  "32 word \<Rightarrow> int \<Rightarrow> 32 word \<Rightarrow> machine \<Rightarrow> machine option" where
  "waitForResultSHT_loop tmo dPin start m =
     (case digitalRead dPin m of
        (level, m) \<Rightarrow>
          (if level \<noteq> 0 then
             (case millis m of
                (now, m) \<Rightarrow>
                  (if now - start < tmo then waitForResultSHT_loop tmo dPin start m
                   else Some m))
           else Some m))"

definition waitForResultSHT :: "32 word \<Rightarrow> int \<Rightarrow> machine \<Rightarrow> machine option" where
  "waitForResultSHT tmo dPin m =
     (let m = pinMode dPin (dataInputMode m) m
      in (case millis m of
            (start, m) \<Rightarrow> waitForResultSHT_loop tmo dPin start m))"

definition getData16SHT :: "int \<Rightarrow> int \<Rightarrow> machine \<Rightarrow> int \<times> machine" where
  "getData16SHT dPin cPin m =
     (let m = pinMode dPin (dataInputMode m) m;
          m = pinMode cPin OUTPUT m
      in (case shiftIn dPin cPin 8 m of
            (hi, m) \<Rightarrow>
              (let val = uint hi;
                   val = as_int (INT_BITS m) (val * 256);
                   m = pinMode dPin OUTPUT m;
                   m = digitalWrite dPin HIGH m;
                   m = digitalWrite dPin LOW m;
                   m = digitalWrite cPin HIGH m;
                   m = digitalWrite cPin LOW m;
                   m = pinMode dPin (dataInputMode m) m
               in (case shiftIn dPin cPin 8 m of
                     (lo, m) \<Rightarrow> (val OR uint lo, m)))))"

definition skipCrcSHT :: "int \<Rightarrow> int \<Rightarrow> machine \<Rightarrow> machine" where
  "skipCrcSHT dPin cPin m =
     (let m = pinMode dPin OUTPUT m;
          m = pinMode cPin OUTPUT m;
          m = digitalWrite dPin HIGH m;
          m = digitalWrite cPin HIGH m;
          m = digitalWrite cPin LOW m
      in m)"

subsection \<open>The public methods\<close>

definition requestTemperature :: "machine \<Rightarrow> machine" where
  "requestTemperature m =
     (let gTempCmd = 3 in sendCommandSHT gTempCmd (dataPin m) (clockPin m) m)"

text \<open>
  \<open>readInTemperature\<close> stores the \<open>int\<close> it read into \<open>_temperatureRaw\<close> (a
  conversion to 16 bits) and returns the member (a conversion to \<open>int\<close>).
\<close>

definition readInTemperature :: "32 word \<Rightarrow> machine \<Rightarrow> (cint \<times> machine) option" where
  "readInTemperature tmo m =
     (case waitForResultSHT tmo (dataPin m) m of
        None \<Rightarrow> None
      | Some m \<Rightarrow>
          (case getData16SHT (dataPin m) (clockPin m) m of
             (val, m) \<Rightarrow>
               (let m = m\<lparr>temperatureRaw := Some (word_of_int val)\<rparr>;
                    m = skipCrcSHT (dataPin m) (clockPin m) m
                in Some (map_option (\<lambda>t. as_int (INT_BITS m) (uint t)) (temperatureRaw m), m))))"

definition readTemperatureC :: "32 word \<Rightarrow> machine \<Rightarrow> (cfloat \<times> machine) option" where
  "readTemperatureC tmo m =
     (let m = requestTemperature m
      in (case readInTemperature tmo m of
            None \<Rightarrow> None
          | Some (raw, m) \<Rightarrow> Some (parseTemperatureC raw m)))"

definition readTemperatureF :: "32 word \<Rightarrow> machine \<Rightarrow> (cfloat \<times> machine) option" where
  "readTemperatureF tmo m =
     (let m = requestTemperature m
      in (case readInTemperature tmo m of
            None \<Rightarrow> None
          | Some (raw, m) \<Rightarrow> Some (parseTemperatureF raw m)))"

definition requestHumidity :: "machine \<Rightarrow> machine" where
  "requestHumidity m =
     (let gHumidCmd = 5 in sendCommandSHT gHumidCmd (dataPin m) (clockPin m) m)"

text \<open>\<open>readInHumidity\<close> returns its \<open>int val\<close> as a \<open>float\<close>.\<close>

definition readInHumidity :: "32 word \<Rightarrow> machine \<Rightarrow> (cfloat \<times> machine) option" where
  "readInHumidity tmo m =
     (case waitForResultSHT tmo (dataPin m) m of
        None \<Rightarrow> None
      | Some m \<Rightarrow>
          (case getData16SHT (dataPin m) (clockPin m) m of
             (val, m) \<Rightarrow>
               (let m = skipCrcSHT (dataPin m) (clockPin m) m
                in Some (int_to_float (Some val), m))))"

text \<open>
  \<open>readHumidity\<close> passes that \<open>float\<close> to \<open>parseHumidity\<close>, whose parameter
  is an \<open>int\<close>.
\<close>

definition readHumidity :: "32 word \<Rightarrow> machine \<Rightarrow> (cfloat \<times> machine) option" where
  "readHumidity tmo m =
     (let m = requestHumidity m
      in (case readInHumidity tmo m of
            None \<Rightarrow> None
          | Some (raw, m) \<Rightarrow> Some (parseHumidity (float_to_int raw) m)))"

section \<open>Notions used to state the properties\<close>

text \<open>
  The first index \<open>i\<close>, scanning \<open>i = 1..4\<close>, with \<open>voltage > vals[i]\<close>: the
  selection the calibration is described by.
\<close>

definition firstBracket :: "real \<Rightarrow> nat option" where
  "firstBracket voltage = find (\<lambda>i. voltage > vals ! i) [1..<VALS_IN_TABLE]"

text \<open>
  The accumulator of the bit primitive, as described: doubled at every bit, the new bit
  added; and the next \<open>n\<close> levels a pin will be sampled at.
\<close>

definition accumulate :: "bool list \<Rightarrow> int" where
  "accumulate bits = foldl (\<lambda>accumulator bit. accumulator * 2 + (if bit then 1 else 0)) 0 bits"

definition samples :: "machine \<Rightarrow> int \<Rightarrow> nat \<Rightarrow> bool list" where
  "samples m pin n = map (\<lambda>k. line m pin (reads m + k)) [0..<n]"

text \<open>\<open>n\<close> clock pulses, as they appear among the events.\<close>

definition pulses :: "int \<Rightarrow> nat \<Rightarrow> event list" where
  "pulses cPin n = concat (replicate n [DigitalWrite cPin HIGH, DigitalWrite cPin LOW])"

text \<open>
  What the driver writes on the two lines, as the protocol describes it: the start
  sequence, the command byte most significant bit first and the reads of the
  acknowledgment; the two bytes of a word with the acknowledgment between them; the
  end of the transaction without CRC.
\<close>

definition command_events :: "int \<Rightarrow> int \<Rightarrow> pin_mode \<Rightarrow> 8 word \<Rightarrow> event list" where
  "command_events dPin cPin mode val =
     [PinMode dPin OUTPUT, PinMode cPin OUTPUT,
      DigitalWrite dPin HIGH, DigitalWrite cPin HIGH, DigitalWrite dPin LOW,
      DigitalWrite cPin LOW, DigitalWrite cPin HIGH, DigitalWrite dPin HIGH,
      DigitalWrite cPin LOW] @
     concat (map (\<lambda>i. [DigitalWrite dPin (bit val i), DigitalWrite cPin HIGH, DigitalWrite cPin LOW])
                 (rev [0..<8])) @
     [DigitalWrite cPin HIGH, PinMode dPin mode, DigitalWrite cPin LOW]"

definition word_events :: "int \<Rightarrow> int \<Rightarrow> pin_mode \<Rightarrow> event list" where
  "word_events dPin cPin mode =
     [PinMode dPin mode, PinMode cPin OUTPUT] @ pulses cPin 8 @
     [PinMode dPin OUTPUT, DigitalWrite dPin HIGH, DigitalWrite dPin LOW,
      DigitalWrite cPin HIGH, DigitalWrite cPin LOW, PinMode dPin mode] @
     pulses cPin 8"

definition skip_events :: "int \<Rightarrow> int \<Rightarrow> event list" where
  "skip_events dPin cPin =
     [PinMode dPin OUTPUT, PinMode cPin OUTPUT,
      DigitalWrite dPin HIGH, DigitalWrite cPin HIGH, DigitalWrite cPin LOW]"

text \<open>
  The storage of an object before a constructor has run on it: no coefficient and no
  raw temperature assigned (the pins, which both constructors assign first, are 0),
  nothing read or written yet, on a board with a 16-bit \<open>int\<close> and the given data
  line and clock.
\<close>

definition unassigned :: "(int \<Rightarrow> nat \<Rightarrow> bool) \<Rightarrow> (nat \<Rightarrow> 32 word) \<Rightarrow> machine" where
  "unassigned l c =
     \<lparr>dataPin = 0, clockPin = 0, dataInputMode = INPUT,
      D1C = None, D1F = None, D2C = None, D2F = None, temperatureRaw = None,
      wider = 0, line = l, clock = c, reads = 0, ticks = 0, events = []\<rparr>"

text \<open>
  \<open>stops_at tmo dPin m j\<close>: the wait that starts in state \<open>m\<close> ends at its
  \<open>j\<close>-th poll (counted from 0). There the line reads LOW (ready) or the clock shows
  the timeout elapsed since the start; at every poll before, the line read HIGH and the
  clock showed less.
\<close>

definition stops_at :: "32 word \<Rightarrow> int \<Rightarrow> machine \<Rightarrow> nat \<Rightarrow> bool" where
  "stops_at tmo dPin m j \<longleftrightarrow>
     (\<forall>i\<in>{0..<j}. line m dPin (reads m + i) \<and>
                    clock m (ticks m + 1 + i) - clock m (ticks m) < tmo) \<and>
     (\<not> line m dPin (reads m + j) \<or> \<not> clock m (ticks m + 1 + j) - clock m (ticks m) < tmo)"

text \<open>
  The number of readings of the clock such a wait makes: the start and one for every
  poll that read HIGH.
\<close>

definition readings :: "int \<Rightarrow> machine \<Rightarrow> nat \<Rightarrow> nat" where
  "readings dPin m j = (if line m dPin (reads m + j) then j + 2 else j + 1)"

text \<open>
  \<open>later tmo m s\<close>: the object in state \<open>m\<close> is in state \<open>s\<close> after some
  sequence of calls that have returned, of any member function but the constructors
  and the two calibration functions the constructors call.
\<close>

inductive later :: "32 word \<Rightarrow> machine \<Rightarrow> machine \<Rightarrow> bool" for tmo :: "32 word" and m :: machine where
  now: "later tmo m m"
| after_requestTemperature:
    "later tmo m s \<Longrightarrow> later tmo m (requestTemperature s)"
| after_readInTemperature:
    "later tmo m s \<Longrightarrow> readInTemperature tmo s = Some (raw, s') \<Longrightarrow> later tmo m s'"
| after_readTemperatureC:
    "later tmo m s \<Longrightarrow> readTemperatureC tmo s = Some (v, s') \<Longrightarrow> later tmo m s'"
| after_readTemperatureF:
    "later tmo m s \<Longrightarrow> readTemperatureF tmo s = Some (v, s') \<Longrightarrow> later tmo m s'"
| after_requestHumidity:
    "later tmo m s \<Longrightarrow> later tmo m (requestHumidity s)"
| after_readInHumidity:
    "later tmo m s \<Longrightarrow> readInHumidity tmo s = Some (v, s') \<Longrightarrow> later tmo m s'"
| after_readHumidity:
    "later tmo m s \<Longrightarrow> readHumidity tmo s = Some (v, s') \<Longrightarrow> later tmo m s'"
| after_parseTemperatureC:
    "later tmo m s \<Longrightarrow> later tmo m (snd (parseTemperatureC raw s))"
| after_parseTemperatureF:
    "later tmo m s \<Longrightarrow> later tmo m (snd (parseTemperatureF raw s))"
| after_parseHumidity:
    "later tmo m s \<Longrightarrow> later tmo m (snd (parseHumidity raw s))"
| after_shiftIn:
    "later tmo m s \<Longrightarrow> later tmo m (snd (shiftIn dPin cPin numBits s))"
| after_sendCommandSHT:
    "later tmo m s \<Longrightarrow> later tmo m (sendCommandSHT command dPin cPin s)"
| after_waitForResultSHT:
    "later tmo m s \<Longrightarrow> waitForResultSHT tmo dPin s = Some s' \<Longrightarrow> later tmo m s'"
| after_getData16SHT:
    "later tmo m s \<Longrightarrow> later tmo m (snd (getData16SHT dPin cPin s))"
| after_skipCrcSHT:
    "later tmo m s \<Longrightarrow> later tmo m (skipCrcSHT dPin cPin s)"


section \<open>The int of the board\<close>

lemma INT_BITS_update [simp]:
  "INT_BITS (m\<lparr>dataPin := a\<rparr>) = INT_BITS m" "INT_BITS (m\<lparr>clockPin := a\<rparr>) = INT_BITS m"
  "INT_BITS (m\<lparr>dataInputMode := b\<rparr>) = INT_BITS m"
  "INT_BITS (m\<lparr>D1C := c\<rparr>) = INT_BITS m" "INT_BITS (m\<lparr>D1F := c\<rparr>) = INT_BITS m"
  "INT_BITS (m\<lparr>D2C := c\<rparr>) = INT_BITS m" "INT_BITS (m\<lparr>D2F := c\<rparr>) = INT_BITS m"
  "INT_BITS (m\<lparr>temperatureRaw := w\<rparr>) = INT_BITS m"
  "INT_BITS (m\<lparr>line := l\<rparr>) = INT_BITS m" "INT_BITS (m\<lparr>clock := k\<rparr>) = INT_BITS m"
  "INT_BITS (m\<lparr>reads := r\<rparr>) = INT_BITS m" "INT_BITS (m\<lparr>ticks := t\<rparr>) = INT_BITS m"
  "INT_BITS (m\<lparr>events := es\<rparr>) = INT_BITS m"
  by (simp_all add: INT_BITS_def)

lemma as_int_0 [simp]: "as_int bits 0 = 0"
  by (simp add: as_int_def)

lemma as_int_as_int [simp]: "as_int bits (as_int bits x) = as_int bits x"
  by (simp add: as_int_def)

lemma take_bit_as_int:
  assumes "n \<le> INT_BITS m"
  shows "take_bit n (as_int (INT_BITS m) x) = take_bit n x"
proof -
  have "INT_BITS m = Suc (INT_BITS m - 1)" by (simp add: INT_BITS_def)
  with assms have "n \<le> Suc (INT_BITS m - 1)" by simp
  then show ?thesis unfolding as_int_def by (rule take_bit_signed_take_bit)
qed

lemma as_int_small:
  assumes "0 \<le> x" "x < 32768"
  shows "as_int (INT_BITS m) x = x"
proof -
  have "(2::int) ^ 15 \<le> 2 ^ (INT_BITS m - 1)"
    by (rule power_increasing) (simp_all add: INT_BITS_def)
  with assms have "- (2 ^ (INT_BITS m - 1)) \<le> x" "x < 2 ^ (INT_BITS m - 1)" by simp_all
  then show ?thesis unfolding as_int_def by (rule signed_take_bit_int_eq_self)
qed

lemma as_int_wide:
  assumes "0 < wider m" "0 \<le> x" "x < 65536"
  shows "as_int (INT_BITS m) x = x"
proof -
  from assms(1) have "(2::int) ^ 16 \<le> 2 ^ (INT_BITS m - 1)"
    by (intro power_increasing) (simp_all add: INT_BITS_def)
  with assms have "- (2 ^ (INT_BITS m - 1)) \<le> x" "x < 2 ^ (INT_BITS m - 1)" by simp_all
  then show ?thesis unfolding as_int_def by (rule signed_take_bit_int_eq_self)
qed

lemma as_int_16:
  assumes "wider m = 0" "32768 \<le> x" "x < 65536"
  shows "as_int (INT_BITS m) x = x - 65536"
proof -
  from assms have "- (2 ^ 15) \<le> x - 65536" "x - 65536 < 2 ^ 15" by simp_all
  then have "signed_take_bit 15 (x - 65536) = x - 65536"
    by (rule signed_take_bit_int_eq_self)
  moreover have "signed_take_bit 15 (x - 65536) = signed_take_bit 15 x"
  proof -
    have "take_bit (Suc 15) (x - 65536) = take_bit (Suc 15) x"
      by (simp add: take_bit_eq_mod)
    then show ?thesis by (simp only: signed_take_bit_eq_iff_take_bit_eq)
  qed
  ultimately show ?thesis using assms(1) by (simp add: as_int_def INT_BITS_def)
qed

section \<open>Calibration\<close>

subsection \<open>The selection loop\<close>

lemma table_indices: "[1..<VALS_IN_TABLE] = [1, 2, 3, 4]"
  by (simp add: VALS_IN_TABLE_def upt_conv_Cons)

declare setConversionCoeffs_loop.simps [simp del]

lemma setConversionCoeffs_loop_done: "\<not> i < VALS_IN_TABLE \<Longrightarrow> setConversionCoeffs_loop voltage i m = m"
  by (simp add: setConversionCoeffs_loop.simps)

lemma setConversionCoeffs_loop_skip:
  "i < VALS_IN_TABLE \<Longrightarrow> \<not> voltage > vals ! i \<Longrightarrow>
   setConversionCoeffs_loop voltage i m = setConversionCoeffs_loop voltage (i + 1) m"
  by (subst setConversionCoeffs_loop.simps) simp

lemma setConversionCoeffs_loop_hit:
  "i < VALS_IN_TABLE \<Longrightarrow> voltage > vals ! i \<Longrightarrow>
   setConversionCoeffs_loop voltage i m =
     m\<lparr>D1C := Some (- ((coeffsC ! (i - 1) - coeffsC ! i) / vals ! (i - 1) * voltage + coeffsC ! i)),
       D1F := Some (- ((coeffsF ! (i - 1) - coeffsF ! i) / vals ! (i - 1) * voltage + coeffsF ! i)),
       events := events m @
         [SerialPrintln ((coeffsC ! (i - 1) - coeffsC ! i) / vals ! (i - 1) * voltage + coeffsC ! i),
          SerialPrintln ((coeffsF ! (i - 1) - coeffsF ! i) / vals ! (i - 1) * voltage + coeffsF ! i)]\<rparr>"
  by (subst setConversionCoeffs_loop.simps)
     (simp add: linearInterpolation_def Serial_println_def)

lemma setConversionCoeffs_loop_first:
  assumes "i0 \<le> i" "i < VALS_IN_TABLE" "voltage > vals ! i"
    and "\<forall>j. i0 \<le> j \<and> j < i \<longrightarrow> \<not> voltage > vals ! j"
  shows "setConversionCoeffs_loop voltage i0 m = setConversionCoeffs_loop voltage i m"
  using assms
proof (induction "i - i0" arbitrary: i0)
  case 0
  then show ?case by simp
next
  case (Suc d)
  then have "i0 < i" by linarith
  with Suc.prems have "\<not> voltage > vals ! i0" "i0 < VALS_IN_TABLE" by auto
  then have "setConversionCoeffs_loop voltage i0 m = setConversionCoeffs_loop voltage (i0 + 1) m"
    by (simp add: setConversionCoeffs_loop_skip)
  moreover have "setConversionCoeffs_loop voltage (i0 + 1) m = setConversionCoeffs_loop voltage i m"
    using Suc.hyps Suc.prems \<open>i0 < i\<close> by (intro Suc.hyps(1)) auto
  ultimately show ?case by simp
qed

lemma setConversionCoeffs_loop_none:
  assumes "\<forall>j. i0 \<le> j \<and> j < VALS_IN_TABLE \<longrightarrow> \<not> voltage > vals ! j"
  shows "setConversionCoeffs_loop voltage i0 m = m"
  using assms
proof (induction "VALS_IN_TABLE - i0" arbitrary: i0)
  case 0
  then show ?case by (simp add: setConversionCoeffs_loop_done)
next
  case (Suc d)
  then have lt: "i0 < VALS_IN_TABLE" by linarith
  with Suc.prems have "\<not> voltage > vals ! i0" by auto
  with lt have "setConversionCoeffs_loop voltage i0 m = setConversionCoeffs_loop voltage (i0 + 1) m"
    by (simp add: setConversionCoeffs_loop_skip)
  moreover have "setConversionCoeffs_loop voltage (i0 + 1) m = m"
    using Suc.hyps Suc.prems by (intro Suc.hyps(1)) auto
  ultimately show ?case by simp
qed

lemma firstBracket_cases:
  "firstBracket voltage =
     (if voltage > 4 then Some 1 else if voltage > 3.5 then Some 2
      else if voltage > 3 then Some 3 else if voltage > 2.5 then Some 4 else None)"
  unfolding firstBracket_def table_indices by (simp add: vals_def)

lemma firstBracket_Some:
  assumes "firstBracket voltage = Some i"
  shows "1 \<le> i \<and> i < VALS_IN_TABLE \<and> voltage > vals ! i \<and> (\<forall>j. 1 \<le> j \<and> j < i \<longrightarrow> \<not> voltage > vals ! j)"
proof -
  from assms have "find (\<lambda>i. voltage > vals ! i) [1..<VALS_IN_TABLE] = Some i"
    by (simp add: firstBracket_def)
  then obtain k where k: "k < length [1..<VALS_IN_TABLE]" "voltage > vals ! ([1..<VALS_IN_TABLE] ! k)"
      "i = [1..<VALS_IN_TABLE] ! k" "\<forall>j<k. \<not> voltage > vals ! ([1..<VALS_IN_TABLE] ! j)"
    unfolding find_Some_iff by blast
  show ?thesis
  proof (intro conjI allI impI)
    show "1 \<le> i" "i < VALS_IN_TABLE" "voltage > vals ! i" using k by auto
  next
    fix j assume j: "1 \<le> j \<and> j < i"
    then have "j - 1 < k" using k by auto
    with k(4) have "\<not> voltage > vals ! ([1..<VALS_IN_TABLE] ! (j - 1))" by blast
    moreover have "[1..<VALS_IN_TABLE] ! (j - 1) = j" using j k by auto
    ultimately show "\<not> voltage > vals ! j" by simp
  qed
qed

lemma setConversionCoeffs_Some:
  assumes "firstBracket voltage = Some i"
  shows "setConversionCoeffs voltage m =
     m\<lparr>D2C := Some 0.01, D2F := Some 0.018,
       D1C := Some (- ((coeffsC ! (i - 1) - coeffsC ! i) / vals ! (i - 1) * voltage + coeffsC ! i)),
       D1F := Some (- ((coeffsF ! (i - 1) - coeffsF ! i) / vals ! (i - 1) * voltage + coeffsF ! i)),
       events := events m @
         [SerialPrintln ((coeffsC ! (i - 1) - coeffsC ! i) / vals ! (i - 1) * voltage + coeffsC ! i),
          SerialPrintln ((coeffsF ! (i - 1) - coeffsF ! i) / vals ! (i - 1) * voltage + coeffsF ! i)]\<rparr>"
proof -
  from firstBracket_Some [OF assms]
  have i: "1 \<le> i" "i < VALS_IN_TABLE" "voltage > vals ! i"
    "\<forall>j. 1 \<le> j \<and> j < i \<longrightarrow> \<not> voltage > vals ! j" by auto
  show ?thesis
    unfolding setConversionCoeffs_def
    by (subst setConversionCoeffs_loop_first [OF i(1) i(2) i(3) i(4)]) (simp add: setConversionCoeffs_loop_hit i)
qed

lemma firstBracket_None:
  assumes "firstBracket voltage = None"
  shows "\<forall>j. 1 \<le> j \<and> j < VALS_IN_TABLE \<longrightarrow> \<not> voltage > vals ! j"
  using assms by (auto simp: firstBracket_def find_None_iff)

lemma setConversionCoeffs_None:
  assumes "firstBracket voltage = None"
  shows "setConversionCoeffs voltage m = m\<lparr>D2C := Some 0.01, D2F := Some 0.018\<rparr>"
  unfolding setConversionCoeffs_def
  by (rule setConversionCoeffs_loop_none) (use firstBracket_None [OF assms] in auto)

subsection \<open>Voltages inside the table\<close>

text \<open>
  Claim C1. For every supply voltage inside a bracketed interval of the table (above
  2.5, at most 5), \<open>_setConversionCoeffs\<close> selects the first index \<open>i\<close>, scanning
  \<open>i = 1..4\<close>, with \<open>voltage > vals[i]\<close>, and sets the Celsius offset to
  \<open>-((coeffsC[i-1] - coeffsC[i]) / vals[i-1] * voltage + coeffsC[i])\<close> and the
  Fahrenheit offset likewise from \<open>coeffsF\<close>; the slopes are 0.01 and 0.018 whatever
  the voltage.
\<close>

theorem setConversionCoeffs_in_table:
  "D2C (setConversionCoeffs voltage m) = Some 0.01 \<and>
   D2F (setConversionCoeffs voltage m) = Some 0.018 \<and>
   (2.5 < voltage \<and> voltage \<le> 5 \<longrightarrow>
     (\<exists>i. firstBracket voltage = Some i \<and> 1 \<le> i \<and> i < VALS_IN_TABLE \<and>
        vals ! i < voltage \<and> (\<forall>j\<in>{1..<i}. \<not> vals ! j < voltage) \<and>
        voltage \<le> vals ! (i - 1) \<and>
        D1C (setConversionCoeffs voltage m) =
          Some (- ((coeffsC ! (i - 1) - coeffsC ! i) / vals ! (i - 1) * voltage + coeffsC ! i)) \<and>
        D1F (setConversionCoeffs voltage m) =
          Some (- ((coeffsF ! (i - 1) - coeffsF ! i) / vals ! (i - 1) * voltage + coeffsF ! i))))"
proof (intro conjI impI)
  show "D2C (setConversionCoeffs voltage m) = Some 0.01"
    by (cases "firstBracket voltage")
       (simp_all add: setConversionCoeffs_None setConversionCoeffs_Some)
  show "D2F (setConversionCoeffs voltage m) = Some 0.018"
    by (cases "firstBracket voltage")
       (simp_all add: setConversionCoeffs_None setConversionCoeffs_Some)
next
  assume range: "2.5 < voltage \<and> voltage \<le> 5"
  then have "firstBracket voltage \<noteq> None"
    by (simp add: firstBracket_cases)
  then obtain i where i: "firstBracket voltage = Some i"
    by blast
  from firstBracket_Some [OF i] have b: "1 \<le> i" "i < VALS_IN_TABLE" "vals ! i < voltage"
    by auto
  from i range have "voltage \<le> vals ! (i - 1)"
    by (auto simp: firstBracket_cases vals_def split: if_splits)
  with i b have "firstBracket voltage = Some i \<and> 1 \<le> i \<and> i < VALS_IN_TABLE \<and>
        vals ! i < voltage \<and> voltage \<le> vals ! (i - 1)"
    by simp
  moreover from firstBracket_Some [OF i] have "\<forall>j\<in>{1..<i}. \<not> vals ! j < voltage"
    by simp
  ultimately show "\<exists>i. firstBracket voltage = Some i \<and> 1 \<le> i \<and> i < VALS_IN_TABLE \<and>
        vals ! i < voltage \<and> (\<forall>j\<in>{1..<i}. \<not> vals ! j < voltage) \<and>
        voltage \<le> vals ! (i - 1) \<and>
        D1C (setConversionCoeffs voltage m) =
          Some (- ((coeffsC ! (i - 1) - coeffsC ! i) / vals ! (i - 1) * voltage + coeffsC ! i)) \<and>
        D1F (setConversionCoeffs voltage m) =
          Some (- ((coeffsF ! (i - 1) - coeffsF ! i) / vals ! (i - 1) * voltage + coeffsF ! i))"
    by (intro exI [of _ i]) (simp add: setConversionCoeffs_Some)
qed

theorem setConversionCoeffs_in_table_witness:
  "(2.5::real) < 3.3 \<and> (3.3::real) \<le> 5 \<and> firstBracket 3.3 = Some 3 \<and>
   D2C (setConversionCoeffs 3.3 (unassigned (\<lambda>pin n. True) (\<lambda>n. 0))) = Some 0.01 \<and>
   D2F (setConversionCoeffs 3.3 (unassigned (\<lambda>pin n. True) (\<lambda>n. 0))) = Some 0.018 \<and>
   D1C (setConversionCoeffs 3.3 (unassigned (\<lambda>pin n. True) (\<lambda>n. 0))) = Some (- (13893 / 350)) \<and>
   D1F (setConversionCoeffs 3.3 (unassigned (\<lambda>pin n. True) (\<lambda>n. 0))) = Some (- (13821 / 350))"
  using setConversionCoeffs_in_table [of "3.3" "unassigned (\<lambda>pin n. True) (\<lambda>n. 0)"]
  by (auto simp: firstBracket_cases vals_def coeffsC_def coeffsF_def)

subsection \<open>Voltages above the table\<close>

text \<open>
  Claim C2 says that a voltage above 5 never triggers the first interval and leaves
  \<open>_D1C\<close> and \<open>_D1F\<close> unset. The loop compares with \<open>vals[1] = 4\<close> first, so at
  6 V the first interval is taken and both offsets are assigned.
\<close>

theorem setConversionCoeffs_above_table_counterexample:
  "(5::real) < 6 \<and> firstBracket 6 = Some 1 \<and>
   D1C (unassigned (\<lambda>pin n. True) (\<lambda>n. 0)) = None \<and>
   D1F (unassigned (\<lambda>pin n. True) (\<lambda>n. 0)) = None \<and>
   D1C (setConversionCoeffs 6 (unassigned (\<lambda>pin n. True) (\<lambda>n. 0))) = Some (- 40.16) \<and>
   D1F (setConversionCoeffs 6 (unassigned (\<lambda>pin n. True) (\<lambda>n. 0))) = Some (- 40.32)"
  by (simp add: firstBracket_cases setConversionCoeffs_def setConversionCoeffs_loop.simps
        linearInterpolation_def Serial_println_def VALS_IN_TABLE_def vals_def coeffsC_def
        coeffsF_def unassigned_def)

text \<open>
  Claim C2, amended. For every voltage above 5 the test \<open>voltage > vals[1]\<close> holds at
  \<open>i = 1\<close>: the first interval is taken, and \<open>_D1C\<close> and \<open>_D1F\<close> are assigned the
  values of the first interval's formula at that voltage.
\<close>

theorem setConversionCoeffs_above_table:
  assumes "5 < voltage"
  shows "vals ! 1 < voltage \<and> firstBracket voltage = Some 1 \<and>
    D1C (setConversionCoeffs voltage m) =
      Some (- ((coeffsC ! 0 - coeffsC ! 1) / vals ! 0 * voltage + coeffsC ! 1)) \<and>
    D1F (setConversionCoeffs voltage m) =
      Some (- ((coeffsF ! 0 - coeffsF ! 1) / vals ! 0 * voltage + coeffsF ! 1))"
proof -
  from assms have f: "firstBracket voltage = Some 1"
    by (simp add: firstBracket_cases)
  from assms have "vals ! 1 < voltage" by (simp add: vals_def)
  with f show ?thesis by (simp add: setConversionCoeffs_Some [OF f])
qed

theorem setConversionCoeffs_above_table_witness:
  "(5::real) < 5.5 \<and> firstBracket 5.5 = Some 1 \<and>
   D1C (setConversionCoeffs 5.5 (unassigned (\<lambda>pin n. True) (\<lambda>n. 0))) = Some (- 40.13) \<and>
   D1F (setConversionCoeffs 5.5 (unassigned (\<lambda>pin n. True) (\<lambda>n. 0))) = Some (- 40.26)"
  using setConversionCoeffs_above_table [of "5.5" "unassigned (\<lambda>pin n. True) (\<lambda>n. 0)"]
  by (simp add: vals_def coeffsC_def coeffsF_def)

subsection \<open>The voltage 5\<close>

text \<open>
  Claim C3 says that at exactly 5 V the test fails at \<open>i = 1\<close> and the loop falls
  through to the next breakpoint. The test at \<open>i = 1\<close> is \<open>5 > vals[1]\<close>, that is
  \<open>5 > 4\<close>: it holds, index 1 is selected, and the offset is not the one the loop
  would give from \<open>i = 2\<close> on.
\<close>

theorem setConversionCoeffs_at_5_counterexample:
  "vals ! 1 < (5::real) \<and> firstBracket 5 = Some 1 \<and>
   D1C (setConversionCoeffs_loop 5 1 (unassigned (\<lambda>pin n. True) (\<lambda>n. 0))) = Some (- 40.1) \<and>
   D1C (setConversionCoeffs_loop 5 2 (unassigned (\<lambda>pin n. True) (\<lambda>n. 0))) = Some (- 39.825)"
  by (simp add: firstBracket_cases setConversionCoeffs_loop.simps linearInterpolation_def
        Serial_println_def VALS_IN_TABLE_def vals_def coeffsC_def coeffsF_def unassigned_def)

text \<open>
  Claim C3, amended. At exactly 5 V the test \<open>voltage > vals[1]\<close> holds at \<open>i = 1\<close>,
  nothing falls through, and the interval selected is the one selected for every
  voltage above 4: \<open>coeffs[0]\<close>, \<open>coeffs[1]\<close> and \<open>vals[0]\<close>.
\<close>

theorem setConversionCoeffs_at_5:
  assumes "4 < voltage"
  shows "vals ! 1 < (5::real) \<and> firstBracket 5 = Some 1 \<and> firstBracket voltage = Some 1 \<and>
    D1C (setConversionCoeffs 5 m) =
      Some (- ((coeffsC ! 0 - coeffsC ! 1) / vals ! 0 * 5 + coeffsC ! 1)) \<and>
    D1F (setConversionCoeffs 5 m) =
      Some (- ((coeffsF ! 0 - coeffsF ! 1) / vals ! 0 * 5 + coeffsF ! 1)) \<and>
    D1C (setConversionCoeffs voltage m) =
      Some (- ((coeffsC ! 0 - coeffsC ! 1) / vals ! 0 * voltage + coeffsC ! 1)) \<and>
    D1F (setConversionCoeffs voltage m) =
      Some (- ((coeffsF ! 0 - coeffsF ! 1) / vals ! 0 * voltage + coeffsF ! 1))"
proof -
  have f5: "firstBracket 5 = Some 1" by (simp add: firstBracket_cases)
  from assms have f: "firstBracket voltage = Some 1" by (simp add: firstBracket_cases)
  have "vals ! 1 < (5::real)" by (simp add: vals_def)
  then show ?thesis
    by (simp add: f f5 setConversionCoeffs_Some [OF f] setConversionCoeffs_Some [OF f5])
qed

theorem setConversionCoeffs_at_5_witness:
  "(4::real) < 4.001 \<and> firstBracket 4.001 = Some 1 \<and> firstBracket 5 = Some 1 \<and>
   D1C (setConversionCoeffs 5 (unassigned (\<lambda>pin n. True) (\<lambda>n. 0))) = Some (- 40.1) \<and>
   D1C (setConversionCoeffs 4.001 (unassigned (\<lambda>pin n. True) (\<lambda>n. 0))) = Some (- 40.04006)"
  using setConversionCoeffs_at_5 [of "4.001" "unassigned (\<lambda>pin n. True) (\<lambda>n. 0)"]
  by (simp add: vals_def coeffsC_def coeffsF_def)

section \<open>Conversion of raw samples\<close>

lemma lifted [simp]:
  "fadd (Some x) (Some y) = Some (x + y)"
  "fsub (Some x) (Some y) = Some (x - y)"
  "fmul (Some x) (Some y) = Some (x * y)"
  "int_to_float (Some i) = Some (of_int i)"
  "fadd None b = None" "fadd a None = None"
  "fsub None b = None" "fsub a None = None"
  "fmul None b = None" "fmul a None = None"
  "int_to_float None = None"
  by (simp_all add: fadd_def fsub_def fmul_def int_to_float_def split: option.splits)

text \<open>
  Claim C5. For every raw sample, \<open>parseTemperatureC\<close> returns
  \<open>raw * _D2C + _D1C\<close> and \<open>parseTemperatureF\<close> returns \<open>raw * _D2F + _D1F\<close>; so
  the Celsius value of the raw sample 0 is the Celsius offset.
\<close>

theorem parseTemperature_formula:
  assumes "D2C m = Some slopeC" "D1C m = Some offsetC" "D2F m = Some slopeF" "D1F m = Some offsetF"
  shows "fst (parseTemperatureC (Some raw) m) = Some (of_int raw * slopeC + offsetC) \<and>
         fst (parseTemperatureF (Some raw) m) = Some (of_int raw * slopeF + offsetF) \<and>
         fst (parseTemperatureC (Some 0) m) = D1C m"
  using assms by (simp add: parseTemperatureC_def parseTemperatureF_def)

theorem parseTemperature_formula_witness:
  "D2C (SHT1x 2 3 (unassigned (\<lambda>pin n. True) (\<lambda>n. 0))) = Some 0.01 \<and>
   D1C (SHT1x 2 3 (unassigned (\<lambda>pin n. True) (\<lambda>n. 0))) = Some (- 40.1) \<and>
   D2F (SHT1x 2 3 (unassigned (\<lambda>pin n. True) (\<lambda>n. 0))) = Some 0.018 \<and>
   D1F (SHT1x 2 3 (unassigned (\<lambda>pin n. True) (\<lambda>n. 0))) = Some (- 40.2) \<and>
   fst (parseTemperatureC (Some 6510) (SHT1x 2 3 (unassigned (\<lambda>pin n. True) (\<lambda>n. 0)))) = Some 25 \<and>
   fst (parseTemperatureF (Some 6510) (SHT1x 2 3 (unassigned (\<lambda>pin n. True) (\<lambda>n. 0)))) = Some 76.98 \<and>
   fst (parseTemperatureC (Some 0) (SHT1x 2 3 (unassigned (\<lambda>pin n. True) (\<lambda>n. 0)))) = Some (- 40.1)"
proof -
  have f: "firstBracket 5 = Some 1" by (simp add: firstBracket_cases)
  have c: "D2C (SHT1x 2 3 (unassigned (\<lambda>pin n. True) (\<lambda>n. 0))) = Some 0.01"
      "D1C (SHT1x 2 3 (unassigned (\<lambda>pin n. True) (\<lambda>n. 0))) = Some (- 40.1)"
      "D2F (SHT1x 2 3 (unassigned (\<lambda>pin n. True) (\<lambda>n. 0))) = Some 0.018"
      "D1F (SHT1x 2 3 (unassigned (\<lambda>pin n. True) (\<lambda>n. 0))) = Some (- 40.2)"
    by (simp_all add: SHT1x_def DEFAULT_VOLTAGE_def setConversionCoeffs_Some [OF f]
          vals_def coeffsC_def coeffsF_def)
  from parseTemperature_formula [OF c, of 6510] parseTemperature_formula [OF c, of 0] c show ?thesis by simp
qed

text \<open>
  Claim C4. For every raw humidity sample \<open>raw\<close> and cached raw temperature \<open>t\<close>,
  \<open>parseHumidity\<close> returns
  \<open>(parseTemperatureC(t) - 25.0) * (0.01 + 0.00008 * raw) +
    (-4.0 + 0.0405 * raw + (-0.0000028) * raw * raw)\<close>;
  with \<open>raw = 0\<close> (and in particular \<open>t = 0\<close>) that is
  \<open>(celsius - 25.0) * 0.01 + (-4.0)\<close>. The call \<open>parseTemperatureC(t)\<close> takes
  the 16-bit \<open>t\<close> as an \<open>int\<close>: \<open>t\<close> itself where \<open>int\<close> has more than 16
  bits or \<open>t\<close> is below 32768.
\<close>

theorem parseHumidity_formula:
  assumes "temperatureRaw m = Some t"
    and "fst (parseTemperatureC (Some (as_int (INT_BITS m) (uint t))) m) = Some celsius"
  shows "fst (parseHumidity (Some raw) m) =
           Some ((celsius - 25.0) * (0.01 + 0.00008 * of_int raw) +
                 (- 4.0 + 0.0405 * of_int raw + (- 0.0000028) * of_int raw * of_int raw)) \<and>
         (raw = 0 \<longrightarrow> fst (parseHumidity (Some raw) m) = Some ((celsius - 25.0) * 0.01 + (- 4.0))) \<and>
         (0 < wider m \<or> uint t < 32768 \<longrightarrow> as_int (INT_BITS m) (uint t) = uint t)"
proof -
  have "as_int (INT_BITS m) (uint t) = uint t" if "0 < wider m \<or> uint t < 32768"
  proof -
    have "0 \<le> uint t" "uint t < 65536"
      using uint_bounded [of t] by simp_all
    with that show ?thesis
      by (auto simp: as_int_wide as_int_small)
  qed
  with assms show ?thesis
    by (simp add: parseHumidity_def parseTemperatureC_def split: prod.splits)
qed

theorem parseHumidity_formula_witness:
  "temperatureRaw (SHT1x 2 3 (unassigned (\<lambda>pin n. True) (\<lambda>n. 0))\<lparr>temperatureRaw := Some 0\<rparr>) = Some 0 \<and>
   fst (parseTemperatureC (Some (uint (0 :: 16 word)))
          (SHT1x 2 3 (unassigned (\<lambda>pin n. True) (\<lambda>n. 0))\<lparr>temperatureRaw := Some 0\<rparr>)) = Some (- 40.1) \<and>
   uint (0 :: 16 word) < 32768 \<and>
   fst (parseHumidity (Some 0)
          (SHT1x 2 3 (unassigned (\<lambda>pin n. True) (\<lambda>n. 0))\<lparr>temperatureRaw := Some 0\<rparr>)) =
     Some ((- 40.1 - 25.0) * 0.01 + (- 4.0))"
proof -
  let ?m = "SHT1x 2 3 (unassigned (\<lambda>pin n. True) (\<lambda>n. 0))\<lparr>temperatureRaw := Some 0\<rparr>"
  have f: "firstBracket 5 = Some 1" by (simp add: firstBracket_cases)
  have t: "temperatureRaw ?m = Some 0" by simp
  have c: "fst (parseTemperatureC (Some (as_int (INT_BITS ?m) (uint (0 :: 16 word)))) ?m) = Some (- 40.1)"
    by (simp add: parseTemperatureC_def SHT1x_def DEFAULT_VOLTAGE_def
          setConversionCoeffs_Some [OF f] vals_def coeffsC_def)
  from parseHumidity_formula [OF t c, of 0] t c show ?thesis by simp
qed

section \<open>The bit primitive and the 16-bit word\<close>

declare shiftIn_loop.simps [simp del]

lemma samples_Suc:
  "samples m pin (Suc n) = line m pin (reads m) # samples (m\<lparr>reads := Suc (reads m)\<rparr>) pin n"
  by (simp add: samples_def upt_conv_Cons map_Suc_upt [symmetric] del: upt_Suc)

lemma samples_frame [simp]:
  "samples (m\<lparr>events := es\<rparr>) pin n = samples m pin n"
  by (simp add: samples_def)

lemma samples_frame2 [simp]:
  "samples (m\<lparr>events := es, reads := r\<rparr>) pin n = samples (m\<lparr>reads := r\<rparr>) pin n"
  "samples (m\<lparr>ticks := t\<rparr>) pin n = samples m pin n"
  "samples (m\<lparr>temperatureRaw := w\<rparr>) pin n = samples m pin n"
  by (simp_all add: samples_def)

lemma length_samples [simp]: "length (samples m pin n) = n"
  by (simp add: samples_def)

lemma samples_nth: "k < n \<Longrightarrow> samples m pin n ! k = line m pin (reads m + k)"
  by (simp add: samples_def)

lemma samples_add:
  "samples m pin (a + b) = samples m pin a @ samples (m\<lparr>reads := reads m + a\<rparr>) pin b"
proof (rule nth_equalityI)
  show "length (samples m pin (a + b)) =
        length (samples m pin a @ samples (m\<lparr>reads := reads m + a\<rparr>) pin b)"
    by simp
next
  fix i
  assume "i < length (samples m pin (a + b))"
  then have i: "i < a + b" by simp
  show "samples m pin (a + b) ! i =
        (samples m pin a @ samples (m\<lparr>reads := reads m + a\<rparr>) pin b) ! i"
  proof (cases "i < a")
    case True
    then show ?thesis using i by (simp add: nth_append samples_nth)
  next
    case False
    then have "i - a < b" "reads m + a + (i - a) = reads m + i" using i by linarith+
    then show ?thesis using i False by (simp add: nth_append samples_nth)
  qed
qed

lemma shiftIn_loop_eq:
  "shiftIn_loop dPin cPin numBits i ret m =
     (foldl (\<lambda>accumulator bit. as_int (INT_BITS m) (accumulator * 2 + (if bit then 1 else 0))) ret
        (samples m dPin (nat (numBits - i))),
      m\<lparr>reads := reads m + nat (numBits - i),
        events := events m @ pulses cPin (nat (numBits - i))\<rparr>)"
proof (induction "nat (numBits - i)" arbitrary: i ret m)
  case 0
  then have "\<not> i < numBits" by simp
  then show ?case
    by (subst shiftIn_loop.simps) (simp add: samples_def pulses_def)
next
  case (Suc n)
  then have lt: "i < numBits" and n: "n = nat (numBits - (i + 1))" by linarith+
  have S: "nat (numBits - i) = Suc n" using Suc by simp
  show ?case
    apply (subst shiftIn_loop.simps)
    apply (simp add: lt Let_def digitalRead_def digitalWrite_def Suc.hyps(1) [OF n] S samples_Suc)
    apply (simp add: n [symmetric] samples_def pulses_def)
    done
qed

lemma accumulate_bounds: "0 \<le> accumulate bits \<and> accumulate bits < 2 ^ length bits"
proof (induction bits rule: rev_induct)
  case Nil
  then show ?case by (simp add: accumulate_def)
next
  case (snoc b bits)
  then show ?case by (auto simp: accumulate_def)
qed

lemma accumulate_append:
  "accumulate (xs @ ys) = accumulate xs * 2 ^ length ys + accumulate ys"
proof (induction ys rule: rev_induct)
  case Nil
  then show ?case by (simp add: accumulate_def)
next
  case (snoc y ys)
  have "accumulate (xs @ ys @ [y]) = accumulate (xs @ ys) * 2 + (if y then 1 else 0)"
    by (simp add: accumulate_def)
  also have "\<dots> = (accumulate xs * 2 ^ length ys + accumulate ys) * 2 + (if y then 1 else 0)"
    by (simp add: snoc)
  also have "\<dots> = accumulate xs * 2 ^ length (ys @ [y]) + accumulate (ys @ [y])"
    by (simp add: accumulate_def algebra_simps)
  finally show ?case by simp
qed

lemma as_int_step:
  "as_int bits (as_int bits r * 2 + b) = as_int bits (r * 2 + b)"
proof -
  have "take_bit (Suc (bits - 1)) (signed_take_bit (bits - 1) r) =
        take_bit (Suc (bits - 1)) r"
    by (rule take_bit_signed_take_bit) simp
  then have "signed_take_bit (bits - 1) r mod 2 ^ Suc (bits - 1) = r mod 2 ^ Suc (bits - 1)"
    by (simp only: take_bit_eq_mod)
  then have "(signed_take_bit (bits - 1) r * 2 + b) mod 2 ^ Suc (bits - 1) =
             (r * 2 + b) mod 2 ^ Suc (bits - 1)"
    by (intro mod_add_cong mod_mult_cong refl)
  then have "take_bit (Suc (bits - 1)) (signed_take_bit (bits - 1) r * 2 + b) =
        take_bit (Suc (bits - 1)) (r * 2 + b)"
    by (simp only: take_bit_eq_mod)
  then show ?thesis
    unfolding as_int_def by (simp only: signed_take_bit_eq_iff_take_bit_eq)
qed

lemma wrapped_accumulate:
  "foldl (\<lambda>accumulator bit. as_int bits (accumulator * 2 + (if bit then 1 else 0)))
     (as_int bits r) xs =
   as_int bits (foldl (\<lambda>accumulator bit. accumulator * 2 + (if bit then 1 else 0)) r xs)"
proof (induction xs arbitrary: r)
  case Nil
  show ?case by simp
next
  case (Cons x xs)
  have "foldl (\<lambda>accumulator bit. as_int bits (accumulator * 2 + (if bit then 1 else 0)))
          (as_int bits r) (x # xs) =
        foldl (\<lambda>accumulator bit. as_int bits (accumulator * 2 + (if bit then 1 else 0)))
          (as_int bits (r * 2 + (if x then 1 else 0))) xs"
    by (simp add: as_int_step)
  also have "\<dots> = as_int bits
      (foldl (\<lambda>accumulator bit. accumulator * 2 + (if bit then 1 else 0))
         (r * 2 + (if x then 1 else 0)) xs)"
    by (rule Cons.IH)
  finally show ?case by simp
qed

lemma word_of_as_int:
  "(word_of_int (as_int (INT_BITS m) x) :: 8 word) = word_of_int x"
  "(word_of_int (as_int (INT_BITS m) x) :: 16 word) = word_of_int x"
proof -
  have a: "8 \<le> INT_BITS m" and b: "16 \<le> INT_BITS m" by (simp_all add: INT_BITS_def)
  show "(word_of_int (as_int (INT_BITS m) x) :: 8 word) = word_of_int x"
    by (simp add: word_of_int_eq_iff take_bit_as_int [OF a])
  show "(word_of_int (as_int (INT_BITS m) x) :: 16 word) = word_of_int x"
    by (simp add: word_of_int_eq_iff take_bit_as_int [OF b])
qed

lemma shiftIn_eq:
  "shiftIn dPin cPin numBits m =
     (word_of_int (accumulate (samples m dPin (nat numBits))),
      m\<lparr>reads := reads m + nat numBits, events := events m @ pulses cPin (nat numBits)\<rparr>)"
proof -
  have "foldl (\<lambda>accumulator bit. as_int (INT_BITS m) (accumulator * 2 + (if bit then 1 else 0)))
          0 (samples m dPin (nat numBits)) =
        as_int (INT_BITS m) (accumulate (samples m dPin (nat numBits)))"
    using wrapped_accumulate [of "INT_BITS m" 0] by (simp add: accumulate_def)
  then show ?thesis
    by (simp add: shiftIn_def shiftIn_loop_eq word_of_as_int)
qed

lemma uint_shiftIn:
  "uint (fst (shiftIn dPin cPin numBits m)) = accumulate (samples m dPin (nat numBits)) mod 256"
  by (simp add: shiftIn_eq uint_word_of_int_eq take_bit_eq_mod)

lemma uint_shiftIn_8:
  assumes "numBits \<le> 8"
  shows "uint (fst (shiftIn dPin cPin numBits m)) = accumulate (samples m dPin (nat numBits))"
proof -
  let ?a = "accumulate (samples m dPin (nat numBits))"
  have "?a < 2 ^ nat numBits" using accumulate_bounds [of "samples m dPin (nat numBits)"] by simp
  also have "(2::int) ^ nat numBits \<le> 2 ^ 8"
    using assms by (intro power_increasing) auto
  finally have "?a < 256" by simp
  moreover have "0 \<le> ?a" using accumulate_bounds by blast
  ultimately show ?thesis by (simp add: uint_shiftIn)
qed

lemma or_low_byte:
  fixes a b :: int
  assumes "0 \<le> b" "b < 256"
  shows "a * 256 OR b = a * 256 + b"
proof -
  have "b = take_bit 8 b" using assms by (simp add: take_bit_int_eq_self)
  moreover have "a * 256 = push_bit 8 a" by (simp add: push_bit_eq_mult)
  ultimately have "a * 256 OR b = take_bit 8 b OR push_bit 8 a"
    by (simp add: or.commute)
  also have "\<dots> = concat_bit 8 b a" by (simp add: concat_bit_def)
  also have "\<dots> = take_bit 8 b + push_bit 8 a" by (rule concat_bit_eq)
  finally show ?thesis using \<open>b = take_bit 8 b\<close> \<open>a * 256 = push_bit 8 a\<close> by simp
qed

lemma uint_byte:
  "uint (word_of_int (accumulate (samples m pin 8)) :: 8 word) = accumulate (samples m pin 8)"
proof -
  have "0 \<le> accumulate (samples m pin 8)" "accumulate (samples m pin 8) < 2 ^ 8"
    using accumulate_bounds [of "samples m pin 8"] by simp_all
  then show ?thesis by (simp add: uint_word_of_int_eq take_bit_int_eq_self)
qed

lemma getData16SHT_bytes:
  "getData16SHT dPin cPin m =
     (as_int (INT_BITS m) (accumulate (samples m dPin 8) * 256) OR
        accumulate (samples (m\<lparr>reads := reads m + 8\<rparr>) dPin 8),
      m\<lparr>reads := reads m + 16,
        events := events m @ word_events dPin cPin (dataInputMode m)\<rparr>)"
  by (simp add: getData16SHT_def shiftIn_eq Let_def pinMode_def digitalWrite_def uint_byte
        word_events_def)

lemma accumulate_16:
  "accumulate (samples m pin 16) =
     accumulate (samples m pin 8) * 256 + accumulate (samples (m\<lparr>reads := reads m + 8\<rparr>) pin 8)"
  using samples_add [of m pin 8 8] by (simp add: accumulate_append)

lemma as_int_or_byte:
  assumes "0 \<le> b" "b < 256"
  shows "as_int (INT_BITS m) (a * 256) OR b = as_int (INT_BITS m) (a * 256 + b)"
proof -
  have "as_int (INT_BITS m) (a * 256 OR b) =
        as_int (INT_BITS m) (a * 256) OR as_int (INT_BITS m) b"
    unfolding as_int_def
    by (rule bit_eqI) (auto simp: bit_signed_take_bit_iff bit_or_iff)
  moreover from assms have "as_int (INT_BITS m) b = b"
    by (intro as_int_small) simp_all
  ultimately show ?thesis
    using assms by (simp add: or_low_byte)
qed

lemma getData16SHT_eq:
  "getData16SHT dPin cPin m =
     (as_int (INT_BITS m) (accumulate (samples m dPin 16)),
      m\<lparr>reads := reads m + 16,
        events := events m @ word_events dPin cPin (dataInputMode m)\<rparr>)"
proof -
  have "0 \<le> accumulate (samples (m\<lparr>reads := reads m + 8\<rparr>) dPin 8)"
       "accumulate (samples (m\<lparr>reads := reads m + 8\<rparr>) dPin 8) < 256"
    using accumulate_bounds [of "samples (m\<lparr>reads := reads m + 8\<rparr>) dPin 8"] by simp_all
  then show ?thesis
    by (simp add: getData16SHT_bytes as_int_or_byte accumulate_16)
qed

lemma accumulate_16_range:
  "0 \<le> accumulate (samples m pin 16) \<and> accumulate (samples m pin 16) < 65536"
  using accumulate_bounds [of "samples m pin 16"] by simp

lemma uint_word16:
  "uint (word_of_int (accumulate (samples m pin 16)) :: 16 word) = accumulate (samples m pin 16)"
  using accumulate_16_range [of m pin] by (simp add: uint_word_of_int_eq take_bit_int_eq_self)

lemma take_bit_word16:
  "take_bit 16 (as_int (INT_BITS m) (accumulate (samples m' pin 16))) =
     accumulate (samples m' pin 16)"
proof -
  have b: "16 \<le> INT_BITS m" by (simp add: INT_BITS_def)
  show ?thesis
    using accumulate_16_range [of m' pin]
    by (simp add: take_bit_as_int [OF b] take_bit_int_eq_self)
qed

text \<open>
  Claim C6 says that \<open>shiftIn\<close> over \<open>numBits\<close> clock pulses returns the
  accumulator. The function returns a \<open>uint8_t\<close>: with 9 bits, all sampled HIGH, the
  accumulator is 511 and the value returned is 255.
\<close>

theorem shiftIn_more_than_8_bits_counterexample:
  "accumulate (samples (unassigned (\<lambda>pin n. True) (\<lambda>n. 0)) 0 (nat 9)) = 511 \<and>
   uint (fst (shiftIn 0 1 9 (unassigned (\<lambda>pin n. True) (\<lambda>n. 0)))) = 255"
proof
  show "accumulate (samples (unassigned (\<lambda>pin n. True) (\<lambda>n. 0)) 0 (nat 9)) = 511"
    by (simp add: samples_def accumulate_def unassigned_def upt_conv_Cons)
  show "uint (fst (shiftIn 0 1 9 (unassigned (\<lambda>pin n. True) (\<lambda>n. 0)))) = 255"
    by (simp add: shiftIn_def shiftIn_loop.simps digitalRead_def digitalWrite_def unassigned_def
        as_int_def INT_BITS_def)
qed

text \<open>
  Claim C6, amended. For every sequence of sampled data-line bits, \<open>shiftIn\<close> over
  \<open>numBits\<close> clock pulses returns the accumulator (doubled at every pulse, the sampled
  bit added, most significant bit first) modulo 256, which is the accumulator itself when
  \<open>numBits\<close> is at most 8; and \<open>getData16SHT\<close> returns (\<open>shiftIn\<close> of 8 bits)
  times 256, in \<open>int\<close>, bitwise-OR'd with a second \<open>shiftIn\<close> of 8 bits: an
  \<open>int\<close> whose 16-bit value (its low 16 bits) is \<open>highByte * 256 + lowByte\<close>, the
  high byte sampled first. The \<open>int\<close> is that number itself where \<open>int\<close> has more
  than 16 bits or the high byte is below 128, and that number minus 65536 on a 16-bit
  \<open>int\<close> with a high byte of 128 or more.
\<close>

theorem shiftIn_getData16SHT_value:
  "uint (fst (shiftIn dPin cPin numBits m)) = accumulate (samples m dPin (nat numBits)) mod 256 \<and>
   (numBits \<le> 8 \<longrightarrow>
      uint (fst (shiftIn dPin cPin numBits m)) = accumulate (samples m dPin (nat numBits))) \<and>
   fst (getData16SHT dPin cPin m) =
     as_int (INT_BITS m) (uint (fst (shiftIn dPin cPin 8 m)) * 256) OR
     uint (fst (shiftIn dPin cPin 8 (snd (shiftIn dPin cPin 8 m)))) \<and>
   take_bit 16 (fst (getData16SHT dPin cPin m)) =
     uint (fst (shiftIn dPin cPin 8 m)) * 256 +
     uint (fst (shiftIn dPin cPin 8 (snd (shiftIn dPin cPin 8 m)))) \<and>
   take_bit 16 (fst (getData16SHT dPin cPin m)) = accumulate (samples m dPin 16) \<and>
   (0 < wider m \<or> uint (fst (shiftIn dPin cPin 8 m)) < 128 \<longrightarrow>
      fst (getData16SHT dPin cPin m) =
        uint (fst (shiftIn dPin cPin 8 m)) * 256 +
        uint (fst (shiftIn dPin cPin 8 (snd (shiftIn dPin cPin 8 m))))) \<and>
   (wider m = 0 \<and> 128 \<le> uint (fst (shiftIn dPin cPin 8 m)) \<longrightarrow>
      fst (getData16SHT dPin cPin m) =
        uint (fst (shiftIn dPin cPin 8 m)) * 256 +
        uint (fst (shiftIn dPin cPin 8 (snd (shiftIn dPin cPin 8 m)))) - 65536)"
proof (intro conjI impI)
  let ?hi = "accumulate (samples m dPin 8)"
  let ?lo = "accumulate (samples (m\<lparr>reads := reads m + 8\<rparr>) dPin 8)"
  show "uint (fst (shiftIn dPin cPin numBits m)) = accumulate (samples m dPin (nat numBits)) mod 256"
    by (rule uint_shiftIn)
  show "uint (fst (shiftIn dPin cPin numBits m)) = accumulate (samples m dPin (nat numBits))"
    if "numBits \<le> 8" using that by (rule uint_shiftIn_8)
  have hi: "uint (fst (shiftIn dPin cPin 8 m)) = ?hi"
    by (simp add: uint_shiftIn_8)
  have lo: "uint (fst (shiftIn dPin cPin 8 (snd (shiftIn dPin cPin 8 m)))) = ?lo"
    by (simp add: uint_shiftIn_8) (simp add: shiftIn_eq)
  have b: "0 \<le> ?hi" "?hi < 256" "0 \<le> ?lo" "?lo < 256"
    using accumulate_bounds [of "samples m dPin 8"]
      accumulate_bounds [of "samples (m\<lparr>reads := reads m + 8\<rparr>) dPin 8"] by simp_all
  have v: "fst (getData16SHT dPin cPin m) = as_int (INT_BITS m) (?hi * 256 + ?lo)"
    by (simp add: getData16SHT_eq accumulate_16)
  show "fst (getData16SHT dPin cPin m) =
     as_int (INT_BITS m) (uint (fst (shiftIn dPin cPin 8 m)) * 256) OR
     uint (fst (shiftIn dPin cPin 8 (snd (shiftIn dPin cPin 8 m))))"
    unfolding hi lo by (simp add: getData16SHT_bytes)
  show "take_bit 16 (fst (getData16SHT dPin cPin m)) =
     uint (fst (shiftIn dPin cPin 8 m)) * 256 +
     uint (fst (shiftIn dPin cPin 8 (snd (shiftIn dPin cPin 8 m))))"
    unfolding hi lo using take_bit_word16 [of m m dPin]
    by (simp add: getData16SHT_eq accumulate_16)
  show "take_bit 16 (fst (getData16SHT dPin cPin m)) = accumulate (samples m dPin 16)"
    by (simp add: getData16SHT_eq take_bit_word16)
  show "fst (getData16SHT dPin cPin m) =
        uint (fst (shiftIn dPin cPin 8 m)) * 256 +
        uint (fst (shiftIn dPin cPin 8 (snd (shiftIn dPin cPin 8 m))))"
    if "0 < wider m \<or> uint (fst (shiftIn dPin cPin 8 m)) < 128"
  proof -
    from that have "0 < wider m \<or> ?hi < 128" by (simp add: hi)
    then have "as_int (INT_BITS m) (?hi * 256 + ?lo) = ?hi * 256 + ?lo"
    proof
      assume "0 < wider m"
      then show ?thesis using b by (intro as_int_wide) simp_all
    next
      assume "?hi < 128"
      then show ?thesis using b by (intro as_int_small) simp_all
    qed
    then show ?thesis unfolding hi lo v .
  qed
  show "fst (getData16SHT dPin cPin m) =
        uint (fst (shiftIn dPin cPin 8 m)) * 256 +
        uint (fst (shiftIn dPin cPin 8 (snd (shiftIn dPin cPin 8 m)))) - 65536"
    if "wider m = 0 \<and> 128 \<le> uint (fst (shiftIn dPin cPin 8 m))"
  proof -
    from that have w: "wider m = 0" and h: "128 \<le> ?hi" by (simp_all add: hi)
    from h b have "as_int (INT_BITS m) (?hi * 256 + ?lo) = ?hi * 256 + ?lo - 65536"
      by (intro as_int_16 [OF w]) simp_all
    then show ?thesis unfolding hi lo v .
  qed
qed

theorem shiftIn_getData16SHT_value_witness:
  "(8::int) \<le> 8 \<and>
   accumulate (samples (unassigned (\<lambda>pin n. even n) (\<lambda>n. 0)) 0 (nat 8)) = 170 \<and>
   uint (fst (shiftIn 0 1 8 (unassigned (\<lambda>pin n. even n) (\<lambda>n. 0)))) = 170 \<and>
   wider (unassigned (\<lambda>pin n. even n) (\<lambda>n. 0)) = 0 \<and>
   fst (getData16SHT 0 1 (unassigned (\<lambda>pin n. even n) (\<lambda>n. 0))) = 170 * 256 + 170 - 65536 \<and>
   take_bit 16 (fst (getData16SHT 0 1 (unassigned (\<lambda>pin n. even n) (\<lambda>n. 0)))) = 170 * 256 + 170 \<and>
   0 < wider (unassigned (\<lambda>pin n. even n) (\<lambda>n. 0)\<lparr>wider := 16\<rparr>) \<and>
   fst (getData16SHT 0 1 (unassigned (\<lambda>pin n. even n) (\<lambda>n. 0)\<lparr>wider := 16\<rparr>)) = 170 * 256 + 170 \<and>
   uint (fst (shiftIn 0 1 8 (unassigned (\<lambda>pin n. True) (\<lambda>n. 0)))) = 255 \<and>
   fst (getData16SHT 0 1 (unassigned (\<lambda>pin n. True) (\<lambda>n. 0))) = - 1"
proof -
  let ?m = "unassigned (\<lambda>pin n. even n) (\<lambda>n. 0)"
  let ?M = "unassigned (\<lambda>pin n. even n) (\<lambda>n. 0)\<lparr>wider := 16\<rparr>"
  have a: "accumulate (samples ?m 0 (nat 8)) = 170"
    by (simp add: samples_def accumulate_def unassigned_def upt_conv_Cons)
  have b: "accumulate (samples ?m 0 16) = 43690" "accumulate (samples ?M 0 16) = 43690"
    by (simp_all add: samples_def accumulate_def unassigned_def upt_conv_Cons)
  have w: "wider ?m = 0" "0 < wider ?M"
    by (simp_all add: unassigned_def)
  note t = shiftIn_getData16SHT_value [of 0 1 8 ?m]
  note T = shiftIn_getData16SHT_value [of 0 1 8 ?M]
  note t2 = t [THEN conjunct2, THEN conjunct1]
  note t4 = t [THEN conjunct2, THEN conjunct2, THEN conjunct2, THEN conjunct1]
  note t5 = t [THEN conjunct2, THEN conjunct2, THEN conjunct2, THEN conjunct2, THEN conjunct1]
  note t7 = t [THEN conjunct2, THEN conjunct2, THEN conjunct2, THEN conjunct2, THEN conjunct2,
      THEN conjunct2]
  note T4 = T [THEN conjunct2, THEN conjunct2, THEN conjunct2, THEN conjunct1]
  note T5 = T [THEN conjunct2, THEN conjunct2, THEN conjunct2, THEN conjunct2, THEN conjunct1]
  note T6 = T [THEN conjunct2, THEN conjunct2, THEN conjunct2, THEN conjunct2, THEN conjunct2,
      THEN conjunct1]
  have hi: "uint (fst (shiftIn 0 1 8 ?m)) = 170"
    using t2 a by simp
  have s: "take_bit 16 (fst (getData16SHT 0 1 ?m)) = 43690"
    using t5 b(1) by simp
  have s': "uint (fst (shiftIn 0 1 8 ?m)) * 256 +
     uint (fst (shiftIn 0 1 8 (snd (shiftIn 0 1 8 ?m)))) = 43690"
    using t4 s by simp
  have "fst (getData16SHT 0 1 ?m) =
      uint (fst (shiftIn 0 1 8 ?m)) * 256 +
      uint (fst (shiftIn 0 1 8 (snd (shiftIn 0 1 8 ?m)))) - 65536"
    using t7 w(1) hi by simp
  with s' have v: "fst (getData16SHT 0 1 ?m) = 43690 - 65536" by simp
  have S: "uint (fst (shiftIn 0 1 8 ?M)) * 256 +
     uint (fst (shiftIn 0 1 8 (snd (shiftIn 0 1 8 ?M)))) = 43690"
    using T4 T5 b(2) by simp
  have "fst (getData16SHT 0 1 ?M) =
      uint (fst (shiftIn 0 1 8 ?M)) * 256 +
      uint (fst (shiftIn 0 1 8 (snd (shiftIn 0 1 8 ?M))))"
    using T6 w(2) by blast
  with S have V: "fst (getData16SHT 0 1 ?M) = 43690" by simp
  let ?h = "unassigned (\<lambda>pin n. True) (\<lambda>n. 0)"
  note u = shiftIn_getData16SHT_value [of 0 1 8 ?h]
  note u2 = u [THEN conjunct2, THEN conjunct1]
  note u4 = u [THEN conjunct2, THEN conjunct2, THEN conjunct2, THEN conjunct1]
  note u5 = u [THEN conjunct2, THEN conjunct2, THEN conjunct2, THEN conjunct2, THEN conjunct1]
  note u7 = u [THEN conjunct2, THEN conjunct2, THEN conjunct2, THEN conjunct2, THEN conjunct2,
      THEN conjunct2]
  have c: "accumulate (samples ?h 0 (nat 8)) = 255" "accumulate (samples ?h 0 16) = 65535"
    "wider ?h = 0"
    by (simp_all add: samples_def accumulate_def unassigned_def upt_conv_Cons)
  have hh: "uint (fst (shiftIn 0 1 8 ?h)) = 255"
    using u2 c(1) by simp
  have "uint (fst (shiftIn 0 1 8 ?h)) * 256 +
     uint (fst (shiftIn 0 1 8 (snd (shiftIn 0 1 8 ?h)))) = 65535"
    using u4 u5 c(2) by simp
  moreover have "fst (getData16SHT 0 1 ?h) =
      uint (fst (shiftIn 0 1 8 ?h)) * 256 +
      uint (fst (shiftIn 0 1 8 (snd (shiftIn 0 1 8 ?h)))) - 65536"
    using u7 c(3) hh by simp
  ultimately have vh: "fst (getData16SHT 0 1 ?h) = - 1" by simp
  from a hi s v V w hh vh show ?thesis by simp
qed

section \<open>Waiting for the result\<close>

lemma wait_loop_ready:
  "\<not> line m dPin (reads m) \<Longrightarrow>
   waitForResultSHT_loop tmo dPin start m = Some (m\<lparr>reads := Suc (reads m)\<rparr>)"
  by (subst waitForResultSHT_loop.simps) (simp add: digitalRead_def)

lemma wait_loop_timeout:
  "line m dPin (reads m) \<Longrightarrow> \<not> clock m (ticks m) - start < tmo \<Longrightarrow>
   waitForResultSHT_loop tmo dPin start m =
     Some (m\<lparr>reads := Suc (reads m), ticks := Suc (ticks m)\<rparr>)"
  by (subst waitForResultSHT_loop.simps) (simp add: digitalRead_def millis_def)

lemma wait_loop_again:
  "line m dPin (reads m) \<Longrightarrow> clock m (ticks m) - start < tmo \<Longrightarrow>
   waitForResultSHT_loop tmo dPin start m =
     waitForResultSHT_loop tmo dPin start (m\<lparr>reads := Suc (reads m), ticks := Suc (ticks m)\<rparr>)"
  by (subst waitForResultSHT_loop.simps) (simp add: digitalRead_def millis_def)

lemma wait_loop_timeout_at:
  assumes "\<forall>j\<le>k. line m dPin (reads m + j)"
    and "\<forall>j<k. clock m (ticks m + j) - start < tmo"
    and "\<not> clock m (ticks m + k) - start < tmo"
  shows "waitForResultSHT_loop tmo dPin start m =
           Some (m\<lparr>reads := reads m + k + 1, ticks := ticks m + k + 1\<rparr>)"
  using assms
proof (induction k arbitrary: m)
  case 0
  then show ?case by (simp add: wait_loop_timeout)
next
  case (Suc k)
  let ?m = "m\<lparr>reads := Suc (reads m), ticks := Suc (ticks m)\<rparr>"
  from Suc.prems have now: "line m dPin (reads m)" "clock m (ticks m) - start < tmo"
    by (metis le0 add.right_neutral, metis zero_less_Suc add.right_neutral)
  have 1: "\<forall>j\<le>k. line ?m dPin (reads ?m + j)"
  proof (intro allI impI)
    fix j assume "j \<le> k"
    then have "Suc j \<le> Suc k" by simp
    with Suc.prems(1) have "line m dPin (reads m + Suc j)" by blast
    then show "line ?m dPin (reads ?m + j)" by simp
  qed
  have 2: "\<forall>j<k. clock ?m (ticks ?m + j) - start < tmo"
  proof (intro allI impI)
    fix j assume "j < k"
    then have "Suc j < Suc k" by simp
    with Suc.prems(2) have "clock m (ticks m + Suc j) - start < tmo" by blast
    then show "clock ?m (ticks ?m + j) - start < tmo" by simp
  qed
  have 3: "\<not> clock ?m (ticks ?m + k) - start < tmo"
    using Suc.prems(3) by simp
  show ?case
    by (simp add: wait_loop_again [OF now] Suc.IH [OF 1 2 3])
qed

lemma wait_loop_ready_at:
  assumes "\<not> line m dPin (reads m + r)"
    and "\<forall>j<r. line m dPin (reads m + j) \<and> clock m (ticks m + j) - start < tmo"
  shows "waitForResultSHT_loop tmo dPin start m =
           Some (m\<lparr>reads := reads m + r + 1, ticks := ticks m + r\<rparr>)"
  using assms
proof (induction r arbitrary: m)
  case 0
  then show ?case by (simp add: wait_loop_ready)
next
  case (Suc r)
  let ?m = "m\<lparr>reads := Suc (reads m), ticks := Suc (ticks m)\<rparr>"
  from Suc.prems(2) have now: "line m dPin (reads m)" "clock m (ticks m) - start < tmo"
    by (metis zero_less_Suc add.right_neutral)+
  have 1: "\<not> line ?m dPin (reads ?m + r)" using Suc.prems(1) by simp
  have 2: "\<forall>j<r. line ?m dPin (reads ?m + j) \<and> clock ?m (ticks ?m + j) - start < tmo"
  proof (intro allI impI)
    fix j assume "j < r"
    then have "Suc j < Suc r" by simp
    with Suc.prems(2)
    have "line m dPin (reads m + Suc j) \<and> clock m (ticks m + Suc j) - start < tmo"
      by blast
    then show "line ?m dPin (reads ?m + j) \<and> clock ?m (ticks ?m + j) - start < tmo" by simp
  qed
  show ?case
    by (simp add: wait_loop_again [OF now] Suc.IH [OF 1 2])
qed

lemma wait_loop_returns:
  assumes "\<not> clock m (ticks m + k) - start < tmo"
  shows "\<exists>m'. waitForResultSHT_loop tmo dPin start m = Some m' \<and>
           m' = m\<lparr>reads := reads m', ticks := ticks m'\<rparr> \<and>
           reads m' \<le> reads m + k + 1 \<and> ticks m' \<le> ticks m + k + 1"
  using assms
proof (induction k arbitrary: m)
  case 0
  show ?case
  proof (cases "line m dPin (reads m)")
    case True
    with 0 show ?thesis by (simp add: wait_loop_timeout)
  next
    case False
    then show ?thesis by (simp add: wait_loop_ready)
  qed
next
  case (Suc k)
  let ?m = "m\<lparr>reads := Suc (reads m), ticks := Suc (ticks m)\<rparr>"
  show ?case
  proof (cases "line m dPin (reads m)")
    case False
    then show ?thesis by (simp add: wait_loop_ready)
  next
    case True
    show ?thesis
    proof (cases "clock m (ticks m) - start < tmo")
      case False
      with True show ?thesis by (simp add: wait_loop_timeout)
    next
      case again: True
      have "\<not> clock ?m (ticks ?m + k) - start < tmo" using Suc.prems by simp
      from Suc.IH [OF this] obtain m' where m':
        "waitForResultSHT_loop tmo dPin start ?m = Some m'"
        "m' = ?m\<lparr>reads := reads m', ticks := ticks m'\<rparr>"
        "reads m' \<le> reads ?m + k + 1" "ticks m' \<le> ticks ?m + k + 1"
        by blast
      from m'(2) have "m' = m\<lparr>reads := reads m', ticks := ticks m'\<rparr>" by simp
      with m' show ?thesis
        by (simp add: wait_loop_again [OF True again])
    qed
  qed
qed

lemma wait_loop_frame:
  assumes "waitForResultSHT_loop tmo dPin start m = Some m'"
  shows "m' = m\<lparr>reads := reads m', ticks := ticks m'\<rparr>"
proof (rule waitForResultSHT_loop.raw_induct
    [where P = "\<lambda>tmo dPin start m m'. m' = m\<lparr>reads := reads m', ticks := ticks m'\<rparr>",
      OF _ assms])
  fix loop :: "32 word \<Rightarrow> int \<Rightarrow> 32 word \<Rightarrow> machine \<Rightarrow> machine option"
  fix tmo dPin start m m'
  assume IH: "\<And>tmo dPin start m m'. loop tmo dPin start m = Some m' \<Longrightarrow>
                m' = m\<lparr>reads := reads m', ticks := ticks m'\<rparr>"
    and body: "(case digitalRead dPin m of
        (level, m) \<Rightarrow>
          if level \<noteq> 0
          then case millis m of
               (now, m) \<Rightarrow> if now - start < tmo then loop tmo dPin start m else Some m
          else Some m) = Some m'"
  show "m' = m\<lparr>reads := reads m', ticks := ticks m'\<rparr>"
  proof (cases "line m dPin (reads m)")
    case False
    with body have "m\<lparr>reads := Suc (reads m)\<rparr> = m'"
      by (simp add: digitalRead_def)
    then have "m' = m\<lparr>reads := Suc (reads m)\<rparr>" by (rule sym)
    then show ?thesis by simp
  next
    case True
    show ?thesis
    proof (cases "clock m (ticks m) - start < tmo")
      case False
      with True body have "m\<lparr>reads := Suc (reads m), ticks := Suc (ticks m)\<rparr> = m'"
        by (simp add: digitalRead_def millis_def)
      then have "m' = m\<lparr>reads := Suc (reads m), ticks := Suc (ticks m)\<rparr>" by (rule sym)
      then show ?thesis by simp
    next
      case again: True
      with True body
      have "loop tmo dPin start (m\<lparr>reads := Suc (reads m), ticks := Suc (ticks m)\<rparr>) = Some m'"
        by (simp add: digitalRead_def millis_def)
      from IH [OF this] show ?thesis by simp
    qed
  qed
qed

lemma waitForResultSHT_frame:
  assumes "waitForResultSHT tmo dPin m = Some m'"
  shows "m' = m\<lparr>events := events m @ [PinMode dPin (dataInputMode m)],
                 reads := reads m', ticks := ticks m'\<rparr>"
proof -
  from assms have "waitForResultSHT_loop tmo dPin (clock m (ticks m))
       (m\<lparr>events := events m @ [PinMode dPin (dataInputMode m)], ticks := Suc (ticks m)\<rparr>) = Some m'"
    by (simp add: waitForResultSHT_def pinMode_def millis_def)
  from wait_loop_frame [OF this] show ?thesis by simp
qed

lemma waitForResultSHT_fields:
  assumes "waitForResultSHT tmo dPin m = Some m1"
  shows "line m1 = line m" "clock m1 = clock m"
    "dataPin m1 = dataPin m" "clockPin m1 = clockPin m" "dataInputMode m1 = dataInputMode m"
    "D1C m1 = D1C m" "D1F m1 = D1F m" "D2C m1 = D2C m" "D2F m1 = D2F m"
    "temperatureRaw m1 = temperatureRaw m" "wider m1 = wider m" "INT_BITS m1 = INT_BITS m"
  by (subst waitForResultSHT_frame [OF assms], simp)+

lemma waitForResultSHT_unfold:
  "waitForResultSHT tmo dPin m =
     waitForResultSHT_loop tmo dPin (clock m (ticks m))
       (m\<lparr>events := events m @ [PinMode dPin (dataInputMode m)], ticks := Suc (ticks m)\<rparr>)"
  by (simp add: waitForResultSHT_def pinMode_def millis_def)

lemma waitForResultSHT_returns:
  assumes "\<not> clock m (ticks m + 1 + k) - clock m (ticks m) < tmo"
  shows "\<exists>m1. waitForResultSHT tmo dPin m = Some m1"
proof -
  let ?m = "m\<lparr>events := events m @ [PinMode dPin (dataInputMode m)], ticks := Suc (ticks m)\<rparr>"
  from assms have "\<not> clock ?m (ticks ?m + k) - clock m (ticks m) < tmo" by simp
  from wait_loop_returns [OF this, of dPin] show ?thesis
    by (auto simp: waitForResultSHT_unfold)
qed

lemma waitForResultSHT_ready_at:
  assumes "\<not> line m dPin (reads m + r)"
    and "\<forall>j<r. line m dPin (reads m + j) \<and> clock m (ticks m + 1 + j) - clock m (ticks m) < tmo"
  shows "waitForResultSHT tmo dPin m =
           Some (m\<lparr>events := events m @ [PinMode dPin (dataInputMode m)],
                   reads := reads m + r + 1, ticks := ticks m + r + 1\<rparr>)"
proof -
  let ?m = "m\<lparr>events := events m @ [PinMode dPin (dataInputMode m)], ticks := Suc (ticks m)\<rparr>"
  from assms(1) have 1: "\<not> line ?m dPin (reads ?m + r)" by simp
  from assms(2)
  have 2: "\<forall>j<r. line ?m dPin (reads ?m + j) \<and> clock ?m (ticks ?m + j) - clock m (ticks m) < tmo"
    by simp
  show ?thesis
    by (simp add: waitForResultSHT_unfold wait_loop_ready_at [OF 1 2])
qed

lemma waitForResultSHT_timeout_at:
  assumes "\<forall>i\<le>j. line m dPin (reads m + i)"
    and "\<forall>i<j. clock m (ticks m + 1 + i) - clock m (ticks m) < tmo"
    and "\<not> clock m (ticks m + 1 + j) - clock m (ticks m) < tmo"
  shows "waitForResultSHT tmo dPin m =
           Some (m\<lparr>events := events m @ [PinMode dPin (dataInputMode m)],
                   reads := reads m + j + 1, ticks := ticks m + j + 2\<rparr>)"
proof -
  let ?m = "m\<lparr>events := events m @ [PinMode dPin (dataInputMode m)], ticks := Suc (ticks m)\<rparr>"
  from assms(1) have 1: "\<forall>i\<le>j. line ?m dPin (reads ?m + i)" by simp
  from assms(2) have 2: "\<forall>i<j. clock ?m (ticks ?m + i) - clock m (ticks m) < tmo" by simp
  from assms(3) have 3: "\<not> clock ?m (ticks ?m + j) - clock m (ticks m) < tmo" by simp
  show ?thesis
    by (simp add: waitForResultSHT_unfold wait_loop_timeout_at [OF 1 2 3])
qed

text \<open>
  The poll the wait stops at: the first one that finds the line LOW or the timeout
  elapsed. Where the clock shows the timeout elapsed at its \<open>k\<close>-th reading there is
  such a poll, at most the \<open>k\<close>-th, and the wait returns there.
\<close>

lemma stops_at_exists:
  assumes "\<not> clock m (ticks m + 1 + k) - clock m (ticks m) < tmo"
  shows "\<exists>j\<le>k. stops_at tmo dPin m j"
proof -
  let ?P = "\<lambda>j. \<not> line m dPin (reads m + j) \<or>
                \<not> clock m (ticks m + 1 + j) - clock m (ticks m) < tmo"
  let ?j = "LEAST j. ?P j"
  from assms have k: "?P k" by simp
  then have 1: "?P ?j" by (rule LeastI)
  from k have 2: "?j \<le> k" by (rule Least_le)
  have 3: "\<not> ?P i" if "i < ?j" for i
    using that by (rule not_less_Least)
  have 4: "\<forall>i\<in>{0..<?j}. line m dPin (reads m + i) \<and>
                         clock m (ticks m + 1 + i) - clock m (ticks m) < tmo"
  proof
    fix i assume "i \<in> {0..<?j}"
    then have "i < ?j" by simp
    from 3 [OF this]
    show "line m dPin (reads m + i) \<and> clock m (ticks m + 1 + i) - clock m (ticks m) < tmo"
      by blast
  qed
  from 4 1 have "stops_at tmo dPin m ?j"
    unfolding stops_at_def by (rule conjI)
  with 2 show ?thesis by blast
qed

lemma waitForResultSHT_stops:
  assumes "stops_at tmo dPin m j"
  shows "waitForResultSHT tmo dPin m =
           Some (m\<lparr>events := events m @ [PinMode dPin (dataInputMode m)],
                   reads := reads m + j + 1, ticks := ticks m + readings dPin m j\<rparr>)"
proof (cases "line m dPin (reads m + j)")
  case False
  from assms
  have 2: "\<forall>i<j. line m dPin (reads m + i) \<and> clock m (ticks m + 1 + i) - clock m (ticks m) < tmo"
    by (simp add: stops_at_def)
  from waitForResultSHT_ready_at [OF False 2] False show ?thesis
    by (simp add: readings_def)
next
  case True
  from assms
  have b: "\<forall>i<j. line m dPin (reads m + i) \<and> clock m (ticks m + 1 + i) - clock m (ticks m) < tmo"
    by (simp add: stops_at_def)
  have 1: "\<forall>i\<le>j. line m dPin (reads m + i)"
  proof (intro allI impI)
    fix i assume "i \<le> j"
    then have "i < j \<or> i = j" by auto
    with b True show "line m dPin (reads m + i)" by blast
  qed
  from b have 2: "\<forall>i<j. clock m (ticks m + 1 + i) - clock m (ticks m) < tmo" by blast
  from assms True have 3: "\<not> clock m (ticks m + 1 + j) - clock m (ticks m) < tmo"
    by (simp add: stops_at_def)
  from waitForResultSHT_timeout_at [OF 1 2 3] True show ?thesis
    by (simp add: readings_def)
qed

lemma stops_at_frame [simp]:
  "stops_at tmo dPin (m\<lparr>events := es\<rparr>) j = stops_at tmo dPin m j"
  "stops_at tmo dPin (m\<lparr>temperatureRaw := w\<rparr>) j = stops_at tmo dPin m j"
  by (simp_all add: stops_at_def)

lemma readings_frame [simp]:
  "readings dPin (m\<lparr>events := es\<rparr>) j = readings dPin m j"
  "readings dPin (m\<lparr>temperatureRaw := w\<rparr>) j = readings dPin m j"
  by (simp_all add: readings_def)

text \<open>
  The clock is part of the board. On a board whose clock never shows the timeout
  elapsed and whose data line never reads LOW, the loop does not end; so the theorems
  on returning below are about boards whose clock shows the timeout elapsed at some
  reading.
\<close>

lemma wait_loop_never:
  assumes "waitForResultSHT_loop tmo dPin start m = Some m'"
  shows "\<not> ((\<forall>j. line m dPin (reads m + j)) \<and> (\<forall>j. clock m (ticks m + j) - start < tmo))"
proof (rule waitForResultSHT_loop.raw_induct
    [where P = "\<lambda>tmo dPin start m m'.
        \<not> ((\<forall>j. line m dPin (reads m + j)) \<and> (\<forall>j. clock m (ticks m + j) - start < tmo))",
      OF _ assms])
  fix loop :: "32 word \<Rightarrow> int \<Rightarrow> 32 word \<Rightarrow> machine \<Rightarrow> machine option"
  fix tmo dPin start m m'
  assume IH: "\<And>tmo dPin start m m'. loop tmo dPin start m = Some m' \<Longrightarrow>
      \<not> ((\<forall>j. line m dPin (reads m + j)) \<and> (\<forall>j. clock m (ticks m + j) - start < tmo))"
    and body: "(case digitalRead dPin m of
        (level, m) \<Rightarrow>
          if level \<noteq> 0
          then case millis m of
               (now, m) \<Rightarrow> if now - start < tmo then loop tmo dPin start m else Some m
          else Some m) = Some m'"
  show "\<not> ((\<forall>j. line m dPin (reads m + j)) \<and> (\<forall>j. clock m (ticks m + j) - start < tmo))"
  proof
    assume inv: "(\<forall>j. line m dPin (reads m + j)) \<and> (\<forall>j. clock m (ticks m + j) - start < tmo)"
    let ?m = "m\<lparr>reads := Suc (reads m), ticks := Suc (ticks m)\<rparr>"
    from inv have "line m dPin (reads m + 0)" "clock m (ticks m + 0) - start < tmo"
      by blast+
    with body have "loop tmo dPin start ?m = Some m'"
      by (simp add: digitalRead_def millis_def)
    from IH [OF this]
    have "\<not> ((\<forall>j. line ?m dPin (reads ?m + j)) \<and> (\<forall>j. clock ?m (ticks ?m + j) - start < tmo))" .
    moreover have "line ?m dPin (reads ?m + j)" for j
      using inv spec [of "\<lambda>j. line m dPin (reads m + j)" "Suc j"] by simp
    moreover have "clock ?m (ticks ?m + j) - start < tmo" for j
      using inv spec [of "\<lambda>j. clock m (ticks m + j) - start < tmo" "Suc j"] by simp
    ultimately show False by blast
  qed
qed

lemma waitForResultSHT_never_returns:
  assumes "\<forall>j. line m dPin (reads m + j)"
    and "\<forall>j. clock m (ticks m + 1 + j) - clock m (ticks m) < tmo"
  shows "waitForResultSHT tmo dPin m = None"
proof (rule ccontr)
  let ?m = "m\<lparr>events := events m @ [PinMode dPin (dataInputMode m)], ticks := Suc (ticks m)\<rparr>"
  assume "waitForResultSHT tmo dPin m \<noteq> None"
  then obtain m' where "waitForResultSHT_loop tmo dPin (clock m (ticks m)) ?m = Some m'"
    by (auto simp: waitForResultSHT_unfold)
  from wait_loop_never [OF this] assms show False by simp
qed

text \<open>
  Claim C7. Let the clock show at least the timeout elapsed since entry at its
  \<open>k\<close>-th reading in the loop. Then for every behaviour of the data line
  \<open>waitForResultSHT\<close> returns, after at most \<open>k + 1\<close> polls; and when the line
  never reads the ready (LOW) level and \<open>k\<close> is the first such reading, it returns
  right at that reading, no later: after exactly \<open>k + 1\<close> polls of the line and
  \<open>k + 2\<close> readings of the clock (one of them the start).
\<close>

theorem waitForResultSHT_terminates:
  assumes "\<not> clock m (ticks m + 1 + k) - clock m (ticks m) < tmo"
  shows "(\<exists>m'. waitForResultSHT tmo dPin m = Some m' \<and>
            reads m' \<le> reads m + k + 1 \<and> ticks m' \<le> ticks m + k + 2) \<and>
         ((\<forall>j\<le>k. line m dPin (reads m + j)) \<and>
          (\<forall>j<k. clock m (ticks m + 1 + j) - clock m (ticks m) < tmo) \<longrightarrow>
            waitForResultSHT tmo dPin m =
              Some (m\<lparr>events := events m @ [PinMode dPin (dataInputMode m)],
                      reads := reads m + k + 1, ticks := ticks m + k + 2\<rparr>))"
proof (intro conjI impI)
  let ?m = "m\<lparr>events := events m @ [PinMode dPin (dataInputMode m)], ticks := Suc (ticks m)\<rparr>"
  from assms have "\<not> clock ?m (ticks ?m + k) - clock m (ticks m) < tmo" by simp
  from wait_loop_returns [OF this, of dPin]
  show "\<exists>m'. waitForResultSHT tmo dPin m = Some m' \<and>
            reads m' \<le> reads m + k + 1 \<and> ticks m' \<le> ticks m + k + 2"
    by (auto simp: waitForResultSHT_unfold)
next
  let ?m = "m\<lparr>events := events m @ [PinMode dPin (dataInputMode m)], ticks := Suc (ticks m)\<rparr>"
  assume h: "(\<forall>j\<le>k. line m dPin (reads m + j)) \<and>
          (\<forall>j<k. clock m (ticks m + 1 + j) - clock m (ticks m) < tmo)"
  then have 1: "\<forall>j\<le>k. line ?m dPin (reads ?m + j)" by simp
  from h have 2: "\<forall>j<k. clock ?m (ticks ?m + j) - clock m (ticks m) < tmo" by simp
  from assms have 3: "\<not> clock ?m (ticks ?m + k) - clock m (ticks m) < tmo" by simp
  show "waitForResultSHT tmo dPin m =
              Some (m\<lparr>events := events m @ [PinMode dPin (dataInputMode m)],
                      reads := reads m + k + 1, ticks := ticks m + k + 2\<rparr>)"
    by (simp add: waitForResultSHT_unfold wait_loop_timeout_at [OF 1 2 3])
qed

theorem waitForResultSHT_terminates_witness:
  "\<not> clock (unassigned (\<lambda>pin n. True) (\<lambda>n. word_of_nat n))
        (ticks (unassigned (\<lambda>pin n. True) (\<lambda>n. word_of_nat n)) + 1 + 2)
      - clock (unassigned (\<lambda>pin n. True) (\<lambda>n. word_of_nat n))
          (ticks (unassigned (\<lambda>pin n. True) (\<lambda>n. word_of_nat n))) < (3 :: 32 word) \<and>
   waitForResultSHT 3 0 (unassigned (\<lambda>pin n. True) (\<lambda>n. word_of_nat n)) =
     Some (unassigned (\<lambda>pin n. True) (\<lambda>n. word_of_nat n)
             \<lparr>events := [PinMode 0 INPUT], reads := 3, ticks := 4\<rparr>)"
proof -
  let ?m = "unassigned (\<lambda>pin n. True) (\<lambda>n. word_of_nat n)"
  have a: "\<not> clock ?m (ticks ?m + 1 + 2) - clock ?m (ticks ?m) < (3 :: 32 word)"
    by (simp add: unassigned_def)
  have b: "\<forall>j\<le>2. line ?m 0 (reads ?m + j)"
    by (simp add: unassigned_def)
  have "clock ?m (ticks ?m + 1 + j) - clock ?m (ticks ?m) < (3 :: 32 word)" if "j < 2" for j
  proof -
    from that have "j = 0 \<or> j = 1" by auto
    then show ?thesis by (auto simp: unassigned_def)
  qed
  then have c: "\<forall>j<2. clock ?m (ticks ?m + 1 + j) - clock ?m (ticks ?m) < (3 :: 32 word)"
    by blast
  from waitForResultSHT_terminates [OF a, of 0] b c
  have "waitForResultSHT 3 0 ?m =
          Some (?m\<lparr>events := events ?m @ [PinMode 0 (dataInputMode ?m)],
                  reads := reads ?m + 2 + 1, ticks := ticks ?m + 2 + 2\<rparr>)"
    by blast
  with a show ?thesis by (simp add: unassigned_def)
qed

section \<open>Transactions\<close>

lemma shiftOut_MSBFIRST_eq:
  "shiftOut_MSBFIRST dPin cPin val i m =
     m\<lparr>events := events m @
        concat (map (\<lambda>i. [DigitalWrite dPin (bit val i), DigitalWrite cPin HIGH, DigitalWrite cPin LOW])
                    (rev [0..<i]))\<rparr>"
  by (induction i arbitrary: m) (simp_all add: digitalWrite_def)

lemma sendCommandSHT_eq:
  "sendCommandSHT command dPin cPin m =
     m\<lparr>reads := reads m + 2,
       events := events m @ command_events dPin cPin (dataInputMode m) (word_of_int command)\<rparr>"
  by (simp add: sendCommandSHT_def Let_def shiftOut_def shiftOut_MSBFIRST_eq digitalRead_def
        digitalWrite_def pinMode_def command_events_def del: upt_Suc rev.simps)

lemma skipCrcSHT_eq:
  "skipCrcSHT dPin cPin m = m\<lparr>events := events m @ skip_events dPin cPin\<rparr>"
  by (simp add: skipCrcSHT_def Let_def digitalWrite_def pinMode_def skip_events_def)

lemma requestTemperature_eq:
  "requestTemperature m =
     m\<lparr>reads := reads m + 2,
       events := events m @ command_events (dataPin m) (clockPin m) (dataInputMode m) 3\<rparr>"
  by (simp add: requestTemperature_def sendCommandSHT_eq)

lemma requestHumidity_eq:
  "requestHumidity m =
     m\<lparr>reads := reads m + 2,
       events := events m @ command_events (dataPin m) (clockPin m) (dataInputMode m) 5\<rparr>"
  by (simp add: requestHumidity_def sendCommandSHT_eq)

lemma request_clock [simp]:
  "clock (requestTemperature m) = clock m" "ticks (requestTemperature m) = ticks m"
  "clock (requestHumidity m) = clock m" "ticks (requestHumidity m) = ticks m"
  by (simp_all add: requestTemperature_eq requestHumidity_eq)

lemma parse_snd [simp]:
  "snd (parseTemperatureC raw m) = m" "snd (parseTemperatureF raw m) = m"
  "snd (parseHumidity raw m) = m"
  by (simp_all add: parseTemperatureC_def parseTemperatureF_def parseHumidity_def Let_def)

lemma parse_frame [simp]:
  "fst (parseTemperatureC raw (m\<lparr>reads := r\<rparr>)) = fst (parseTemperatureC raw m)"
  "fst (parseTemperatureC raw (m\<lparr>ticks := t\<rparr>)) = fst (parseTemperatureC raw m)"
  "fst (parseTemperatureC raw (m\<lparr>events := es\<rparr>)) = fst (parseTemperatureC raw m)"
  "fst (parseTemperatureC raw (m\<lparr>temperatureRaw := w\<rparr>)) = fst (parseTemperatureC raw m)"
  "fst (parseTemperatureF raw (m\<lparr>reads := r\<rparr>)) = fst (parseTemperatureF raw m)"
  "fst (parseTemperatureF raw (m\<lparr>ticks := t\<rparr>)) = fst (parseTemperatureF raw m)"
  "fst (parseTemperatureF raw (m\<lparr>events := es\<rparr>)) = fst (parseTemperatureF raw m)"
  "fst (parseTemperatureF raw (m\<lparr>temperatureRaw := w\<rparr>)) = fst (parseTemperatureF raw m)"
  "fst (parseHumidity raw (m\<lparr>reads := r\<rparr>)) = fst (parseHumidity raw m)"
  "fst (parseHumidity raw (m\<lparr>ticks := t\<rparr>)) = fst (parseHumidity raw m)"
  "fst (parseHumidity raw (m\<lparr>events := es\<rparr>)) = fst (parseHumidity raw m)"
  by (simp_all add: parseTemperatureC_def parseTemperatureF_def parseHumidity_def Let_def)

lemma parseHumidity_same:
  assumes "temperatureRaw s = temperatureRaw m" "D1C s = D1C m" "D2C s = D2C m"
    "wider s = wider m"
  shows "fst (parseHumidity raw s) = fst (parseHumidity raw m)"
  using assms by (simp add: parseHumidity_def parseTemperatureC_def Let_def INT_BITS_def)

lemma float_to_int_of_int [simp]: "float_to_int (Some (of_int i)) = Some i"
  by (simp add: float_to_int_def)

lemma readInTemperature_eq:
  "readInTemperature tmo m =
     (case waitForResultSHT tmo (dataPin m) m of
        None \<Rightarrow> None
      | Some m1 \<Rightarrow>
          Some (Some (as_int (INT_BITS m) (accumulate (samples m1 (dataPin m) 16))),
                m\<lparr>temperatureRaw := Some (word_of_int (accumulate (samples m1 (dataPin m) 16))),
                  reads := reads m1 + 16, ticks := ticks m1,
                  events := events m @ [PinMode (dataPin m) (dataInputMode m)] @
                    word_events (dataPin m) (clockPin m) (dataInputMode m) @
                    skip_events (dataPin m) (clockPin m)\<rparr>))"
proof (cases "waitForResultSHT tmo (dataPin m) m")
  case None
  then show ?thesis by (simp add: readInTemperature_def)
next
  case (Some m1)
  from waitForResultSHT_frame [OF Some]
  have m1: "m1 = m\<lparr>events := events m @ [PinMode (dataPin m) (dataInputMode m)],
                  reads := reads m1, ticks := ticks m1\<rparr>" .
  have f: "dataPin m1 = dataPin m" "clockPin m1 = clockPin m" "dataInputMode m1 = dataInputMode m"
    "events m1 = events m @ [PinMode (dataPin m) (dataInputMode m)]" "INT_BITS m1 = INT_BITS m"
    by (subst m1, simp)+
  have "readInTemperature tmo m =
     Some (Some (as_int (INT_BITS m) (accumulate (samples m1 (dataPin m) 16))),
           m1\<lparr>temperatureRaw := Some (word_of_int (accumulate (samples m1 (dataPin m) 16))),
              reads := reads m1 + 16,
              events := events m1 @ word_events (dataPin m) (clockPin m) (dataInputMode m) @
                    skip_events (dataPin m) (clockPin m)\<rparr>)"
    by (simp add: readInTemperature_def Some f getData16SHT_eq Let_def skipCrcSHT_eq
          word_of_as_int uint_word16)
  also have "m1\<lparr>temperatureRaw := Some (word_of_int (accumulate (samples m1 (dataPin m) 16))),
              reads := reads m1 + 16,
              events := events m1 @ word_events (dataPin m) (clockPin m) (dataInputMode m) @
                    skip_events (dataPin m) (clockPin m)\<rparr> =
            m\<lparr>temperatureRaw := Some (word_of_int (accumulate (samples m1 (dataPin m) 16))),
                  reads := reads m1 + 16, ticks := ticks m1,
                  events := events m @ [PinMode (dataPin m) (dataInputMode m)] @
                    word_events (dataPin m) (clockPin m) (dataInputMode m) @
                    skip_events (dataPin m) (clockPin m)\<rparr>"
    by (subst m1) (simp add: f)
  finally show ?thesis by (simp add: Some)
qed

lemma readInHumidity_eq:
  "readInHumidity tmo m =
     (case waitForResultSHT tmo (dataPin m) m of
        None \<Rightarrow> None
      | Some m1 \<Rightarrow>
          Some (Some (of_int (as_int (INT_BITS m) (accumulate (samples m1 (dataPin m) 16)))),
                m\<lparr>reads := reads m1 + 16, ticks := ticks m1,
                  events := events m @ [PinMode (dataPin m) (dataInputMode m)] @
                    word_events (dataPin m) (clockPin m) (dataInputMode m) @
                    skip_events (dataPin m) (clockPin m)\<rparr>))"
proof (cases "waitForResultSHT tmo (dataPin m) m")
  case None
  then show ?thesis by (simp add: readInHumidity_def)
next
  case (Some m1)
  from waitForResultSHT_frame [OF Some]
  have m1: "m1 = m\<lparr>events := events m @ [PinMode (dataPin m) (dataInputMode m)],
                  reads := reads m1, ticks := ticks m1\<rparr>" .
  have f: "dataPin m1 = dataPin m" "clockPin m1 = clockPin m" "dataInputMode m1 = dataInputMode m"
    "events m1 = events m @ [PinMode (dataPin m) (dataInputMode m)]" "INT_BITS m1 = INT_BITS m"
    by (subst m1, simp)+
  have "readInHumidity tmo m =
     Some (Some (of_int (as_int (INT_BITS m) (accumulate (samples m1 (dataPin m) 16)))),
           m1\<lparr>reads := reads m1 + 16,
              events := events m1 @ word_events (dataPin m) (clockPin m) (dataInputMode m) @
                    skip_events (dataPin m) (clockPin m)\<rparr>)"
    by (simp add: readInHumidity_def Some f getData16SHT_eq Let_def skipCrcSHT_eq
          int_to_float_def)
  also have "m1\<lparr>reads := reads m1 + 16,
              events := events m1 @ word_events (dataPin m) (clockPin m) (dataInputMode m) @
                    skip_events (dataPin m) (clockPin m)\<rparr> =
            m\<lparr>reads := reads m1 + 16, ticks := ticks m1,
                  events := events m @ [PinMode (dataPin m) (dataInputMode m)] @
                    word_events (dataPin m) (clockPin m) (dataInputMode m) @
                    skip_events (dataPin m) (clockPin m)\<rparr>"
    by (subst m1) (simp add: f)
  finally show ?thesis by (simp add: Some)
qed

lemma readTemperatureC_eq:
  "readTemperatureC tmo m =
     (case waitForResultSHT tmo (dataPin m) (requestTemperature m) of
        None \<Rightarrow> None
      | Some m1 \<Rightarrow>
          Some (fst (parseTemperatureC
                       (Some (as_int (INT_BITS m) (accumulate (samples m1 (dataPin m) 16)))) m),
                m\<lparr>temperatureRaw := Some (word_of_int (accumulate (samples m1 (dataPin m) 16))),
                  reads := reads m1 + 16, ticks := ticks m1,
                  events := events m @
                    command_events (dataPin m) (clockPin m) (dataInputMode m) 3 @
                    [PinMode (dataPin m) (dataInputMode m)] @
                    word_events (dataPin m) (clockPin m) (dataInputMode m) @
                    skip_events (dataPin m) (clockPin m)\<rparr>))"
  by (simp add: readTemperatureC_def Let_def readInTemperature_eq requestTemperature_eq
        prod_eq_iff split: option.splits)

lemma readTemperatureF_eq:
  "readTemperatureF tmo m =
     (case waitForResultSHT tmo (dataPin m) (requestTemperature m) of
        None \<Rightarrow> None
      | Some m1 \<Rightarrow>
          Some (fst (parseTemperatureF
                       (Some (as_int (INT_BITS m) (accumulate (samples m1 (dataPin m) 16)))) m),
                m\<lparr>temperatureRaw := Some (word_of_int (accumulate (samples m1 (dataPin m) 16))),
                  reads := reads m1 + 16, ticks := ticks m1,
                  events := events m @
                    command_events (dataPin m) (clockPin m) (dataInputMode m) 3 @
                    [PinMode (dataPin m) (dataInputMode m)] @
                    word_events (dataPin m) (clockPin m) (dataInputMode m) @
                    skip_events (dataPin m) (clockPin m)\<rparr>))"
  by (simp add: readTemperatureF_def Let_def readInTemperature_eq requestTemperature_eq
        prod_eq_iff split: option.splits)

lemma readHumidity_eq:
  "readHumidity tmo m =
     (case waitForResultSHT tmo (dataPin m) (requestHumidity m) of
        None \<Rightarrow> None
      | Some m1 \<Rightarrow>
          Some (fst (parseHumidity
                       (Some (as_int (INT_BITS m) (accumulate (samples m1 (dataPin m) 16)))) m),
                m\<lparr>reads := reads m1 + 16, ticks := ticks m1,
                  events := events m @
                    command_events (dataPin m) (clockPin m) (dataInputMode m) 5 @
                    [PinMode (dataPin m) (dataInputMode m)] @
                    word_events (dataPin m) (clockPin m) (dataInputMode m) @
                    skip_events (dataPin m) (clockPin m)\<rparr>))"
  by (simp add: readHumidity_def Let_def readInHumidity_eq requestHumidity_eq
        prod_eq_iff split: option.splits)

lemma samples_all_high:
  assumes "\<forall>j. line m pin j"
  shows "accumulate (samples m pin 16) = 65535"
proof -
  have "samples m pin 16 = map (\<lambda>k. True) [0..<16]"
    using assms by (simp add: samples_def)
  then show ?thesis by (simp add: accumulate_def upt_conv_Cons)
qed

lemma samples_alternating:
  assumes "line m pin = even" "even (reads m)"
  shows "accumulate (samples m pin 16) = 43690"
  using assms by (simp add: samples_def accumulate_def upt_conv_Cons)

lemma SHT1x_fields:
  "D1C (SHT1x dPin cPin m) = Some (- 40.1)" "D1F (SHT1x dPin cPin m) = Some (- 40.2)"
  "D2C (SHT1x dPin cPin m) = Some 0.01" "D2F (SHT1x dPin cPin m) = Some 0.018"
  "dataPin (SHT1x dPin cPin m) = dPin" "clockPin (SHT1x dPin cPin m) = cPin"
  "dataInputMode (SHT1x dPin cPin m) = INPUT"
  "temperatureRaw (SHT1x dPin cPin m) = temperatureRaw m"
  "line (SHT1x dPin cPin m) = line m" "clock (SHT1x dPin cPin m) = clock m"
  "reads (SHT1x dPin cPin m) = reads m" "ticks (SHT1x dPin cPin m) = ticks m"
  "wider (SHT1x dPin cPin m) = wider m"
proof -
  have f: "firstBracket 5 = Some 1" by (simp add: firstBracket_cases)
  show "D1C (SHT1x dPin cPin m) = Some (- 40.1)" "D1F (SHT1x dPin cPin m) = Some (- 40.2)"
  "D2C (SHT1x dPin cPin m) = Some 0.01" "D2F (SHT1x dPin cPin m) = Some 0.018"
  "dataPin (SHT1x dPin cPin m) = dPin" "clockPin (SHT1x dPin cPin m) = cPin"
  "dataInputMode (SHT1x dPin cPin m) = INPUT"
  "temperatureRaw (SHT1x dPin cPin m) = temperatureRaw m"
  "line (SHT1x dPin cPin m) = line m" "clock (SHT1x dPin cPin m) = clock m"
  "reads (SHT1x dPin cPin m) = reads m" "ticks (SHT1x dPin cPin m) = ticks m"
  "wider (SHT1x dPin cPin m) = wider m"
    by (simp_all add: SHT1x_def DEFAULT_VOLTAGE_def setConversionCoeffs_Some [OF f]
          vals_def coeffsC_def coeffsF_def)
qed

lemma later_frame:
  assumes "later tmo m s"
  shows "D1C s = D1C m \<and> D1F s = D1F m \<and> D2C s = D2C m \<and> D2F s = D2F m \<and>
         dataPin s = dataPin m \<and> clockPin s = clockPin m \<and>
         dataInputMode s = dataInputMode m \<and> line s = line m \<and> clock s = clock m \<and>
         wider s = wider m"
  using assms
proof (induction rule: later.induct)
  case now
  show ?case by simp
next
  case (after_requestTemperature s)
  then show ?case by (simp add: requestTemperature_eq)
next
  case (after_readInTemperature s raw s')
  then show ?case by (auto simp: readInTemperature_eq split: option.splits)
next
  case (after_readTemperatureC s v s')
  then show ?case by (auto simp: readTemperatureC_eq split: option.splits)
next
  case (after_readTemperatureF s v s')
  then show ?case by (auto simp: readTemperatureF_eq split: option.splits)
next
  case (after_requestHumidity s)
  then show ?case by (simp add: requestHumidity_eq)
next
  case (after_readInHumidity s v s')
  then show ?case by (auto simp: readInHumidity_eq split: option.splits)
next
  case (after_readHumidity s v s')
  then show ?case by (auto simp: readHumidity_eq split: option.splits)
next
  case (after_parseTemperatureC s raw)
  then show ?case by simp
next
  case (after_parseTemperatureF s raw)
  then show ?case by simp
next
  case (after_parseHumidity s raw)
  then show ?case by simp
next
  case (after_shiftIn s dPin cPin numBits)
  then show ?case by (simp add: shiftIn_eq)
next
  case (after_sendCommandSHT s command dPin cPin)
  then show ?case by (simp add: sendCommandSHT_eq)
next
  case (after_waitForResultSHT s dPin s')
  from waitForResultSHT_fields [OF after_waitForResultSHT.hyps(2)] after_waitForResultSHT.IH
  show ?case by simp
next
  case (after_getData16SHT s dPin cPin)
  then show ?case by (simp add: getData16SHT_eq)
next
  case (after_skipCrcSHT s dPin cPin)
  then show ?case by (simp add: skipCrcSHT_eq)
qed

lemma readInTemperature_stops:
  assumes "stops_at tmo (dataPin m) m j"
  shows "readInTemperature tmo m =
     Some (Some (as_int (INT_BITS m)
                   (accumulate (samples (m\<lparr>reads := reads m + j + 1\<rparr>) (dataPin m) 16))),
           m\<lparr>temperatureRaw :=
               Some (word_of_int
                 (accumulate (samples (m\<lparr>reads := reads m + j + 1\<rparr>) (dataPin m) 16))),
             reads := reads m + j + 17,
             ticks := ticks m + readings (dataPin m) m j,
             events := events m @ [PinMode (dataPin m) (dataInputMode m)] @
               word_events (dataPin m) (clockPin m) (dataInputMode m) @
               skip_events (dataPin m) (clockPin m)\<rparr>)"
  by (simp add: readInTemperature_eq waitForResultSHT_stops [OF assms])

lemma readInHumidity_stops:
  assumes "stops_at tmo (dataPin m) m j"
  shows "readInHumidity tmo m =
     Some (Some (of_int (as_int (INT_BITS m)
                   (accumulate (samples (m\<lparr>reads := reads m + j + 1\<rparr>) (dataPin m) 16)))),
           m\<lparr>reads := reads m + j + 17,
             ticks := ticks m + readings (dataPin m) m j,
             events := events m @ [PinMode (dataPin m) (dataInputMode m)] @
               word_events (dataPin m) (clockPin m) (dataInputMode m) @
               skip_events (dataPin m) (clockPin m)\<rparr>)"
  by (simp add: readInHumidity_eq waitForResultSHT_stops [OF assms])

lemma request_stops:
  assumes "stops_at tmo (dataPin m) (m\<lparr>reads := reads m + 2\<rparr>) j"
  shows "waitForResultSHT tmo (dataPin m) (requestTemperature m) =
           Some (m\<lparr>reads := reads m + j + 3,
                   ticks := ticks m + readings (dataPin m) (m\<lparr>reads := reads m + 2\<rparr>) j,
                   events := events m @
                     command_events (dataPin m) (clockPin m) (dataInputMode m) 3 @
                     [PinMode (dataPin m) (dataInputMode m)]\<rparr>)"
    and "waitForResultSHT tmo (dataPin m) (requestHumidity m) =
           Some (m\<lparr>reads := reads m + j + 3,
                   ticks := ticks m + readings (dataPin m) (m\<lparr>reads := reads m + 2\<rparr>) j,
                   events := events m @
                     command_events (dataPin m) (clockPin m) (dataInputMode m) 5 @
                     [PinMode (dataPin m) (dataInputMode m)]\<rparr>)"
proof -
  from assms have t: "stops_at tmo (dataPin m) (requestTemperature m) j"
    and h: "stops_at tmo (dataPin m) (requestHumidity m) j"
    by (simp_all add: requestTemperature_eq requestHumidity_eq)
  show "waitForResultSHT tmo (dataPin m) (requestTemperature m) =
           Some (m\<lparr>reads := reads m + j + 3,
                   ticks := ticks m + readings (dataPin m) (m\<lparr>reads := reads m + 2\<rparr>) j,
                   events := events m @
                     command_events (dataPin m) (clockPin m) (dataInputMode m) 3 @
                     [PinMode (dataPin m) (dataInputMode m)]\<rparr>)"
    unfolding waitForResultSHT_stops [OF t] by (simp add: requestTemperature_eq)
  show "waitForResultSHT tmo (dataPin m) (requestHumidity m) =
           Some (m\<lparr>reads := reads m + j + 3,
                   ticks := ticks m + readings (dataPin m) (m\<lparr>reads := reads m + 2\<rparr>) j,
                   events := events m @
                     command_events (dataPin m) (clockPin m) (dataInputMode m) 5 @
                     [PinMode (dataPin m) (dataInputMode m)]\<rparr>)"
    unfolding waitForResultSHT_stops [OF h] by (simp add: requestHumidity_eq)
qed

lemma readTemperatureC_stops:
  assumes "stops_at tmo (dataPin m) (m\<lparr>reads := reads m + 2\<rparr>) j"
  shows "readTemperatureC tmo m =
     Some (fst (parseTemperatureC
                  (Some (as_int (INT_BITS m)
                     (accumulate (samples (m\<lparr>reads := reads m + j + 3\<rparr>) (dataPin m) 16)))) m),
           m\<lparr>temperatureRaw :=
               Some (word_of_int
                 (accumulate (samples (m\<lparr>reads := reads m + j + 3\<rparr>) (dataPin m) 16))),
             reads := reads m + j + 19,
             ticks := ticks m + readings (dataPin m) (m\<lparr>reads := reads m + 2\<rparr>) j,
             events := events m @
               command_events (dataPin m) (clockPin m) (dataInputMode m) 3 @
               [PinMode (dataPin m) (dataInputMode m)] @
               word_events (dataPin m) (clockPin m) (dataInputMode m) @
               skip_events (dataPin m) (clockPin m)\<rparr>)"
  by (simp add: readTemperatureC_eq request_stops [OF assms])

lemma readTemperatureF_stops:
  assumes "stops_at tmo (dataPin m) (m\<lparr>reads := reads m + 2\<rparr>) j"
  shows "readTemperatureF tmo m =
     Some (fst (parseTemperatureF
                  (Some (as_int (INT_BITS m)
                     (accumulate (samples (m\<lparr>reads := reads m + j + 3\<rparr>) (dataPin m) 16)))) m),
           m\<lparr>temperatureRaw :=
               Some (word_of_int
                 (accumulate (samples (m\<lparr>reads := reads m + j + 3\<rparr>) (dataPin m) 16))),
             reads := reads m + j + 19,
             ticks := ticks m + readings (dataPin m) (m\<lparr>reads := reads m + 2\<rparr>) j,
             events := events m @
               command_events (dataPin m) (clockPin m) (dataInputMode m) 3 @
               [PinMode (dataPin m) (dataInputMode m)] @
               word_events (dataPin m) (clockPin m) (dataInputMode m) @
               skip_events (dataPin m) (clockPin m)\<rparr>)"
  by (simp add: readTemperatureF_eq request_stops [OF assms])

lemma readHumidity_stops:
  assumes "stops_at tmo (dataPin m) (m\<lparr>reads := reads m + 2\<rparr>) j"
  shows "readHumidity tmo m =
     Some (fst (parseHumidity
                  (Some (as_int (INT_BITS m)
                     (accumulate (samples (m\<lparr>reads := reads m + j + 3\<rparr>) (dataPin m) 16)))) m),
           m\<lparr>reads := reads m + j + 19,
             ticks := ticks m + readings (dataPin m) (m\<lparr>reads := reads m + 2\<rparr>) j,
             events := events m @
               command_events (dataPin m) (clockPin m) (dataInputMode m) 5 @
               [PinMode (dataPin m) (dataInputMode m)] @
               word_events (dataPin m) (clockPin m) (dataInputMode m) @
               skip_events (dataPin m) (clockPin m)\<rparr>)"
  by (simp add: readHumidity_eq request_stops [OF assms])

lemma stops_at_request:
  assumes "\<not> clock m (ticks m + 1 + k) - clock m (ticks m) < tmo"
  shows "\<exists>j\<le>k. stops_at tmo dPin (m\<lparr>reads := r\<rparr>) j"
proof -
  from assms have "\<not> clock (m\<lparr>reads := r\<rparr>) (ticks (m\<lparr>reads := r\<rparr>) + 1 + k)
      - clock (m\<lparr>reads := r\<rparr>) (ticks (m\<lparr>reads := r\<rparr>)) < tmo"
    by simp
  then show ?thesis by (rule stops_at_exists)
qed

lemma stuck_HIGH:
  assumes "\<forall>n. line m pin n"
  shows "accumulate (samples (m\<lparr>reads := r\<rparr>) pin 16) = 65535"
  using assms by (intro samples_all_high) simp

lemma as_int_65535:
  "wider m = 0 \<Longrightarrow> as_int (INT_BITS m) 65535 = - 1"
  "0 < wider m \<Longrightarrow> as_int (INT_BITS m) 65535 = 65535"
  using as_int_16 [of m 65535] as_int_wide [of m 65535] by simp_all

subsection \<open>Faults\<close>

text \<open>
  Claim C8. Neither fault is reported. \<open>sendCommandSHT\<close> reads the two
  acknowledgment bits and does the same whatever they are: it returns the state with two
  more reads of the line and the events of the command, for every line.
  \<open>waitForResultSHT\<close> returns at the first poll that finds the line LOW or the timeout
  elapsed, the same way in both cases; there is such a poll, at most the \<open>k\<close>-th, when
  the clock shows the timeout elapsed at its \<open>k\<close>-th reading. From there
  \<open>readTemperatureC\<close>, \<open>readTemperatureF\<close> and \<open>readHumidity\<close> go on to read the
  next 16 levels of the line and return the conversion of the \<open>int\<close> they make, in a
  state that records the command, the wait, the 16 clock pulses and the skipped
  checksum. On a line that stays HIGH (no acknowledgment, never ready) that \<open>int\<close>
  is 65535 where \<open>int\<close> has more than 16 bits and -1 where it has 16.
\<close>

theorem faults_not_reported:
  assumes "\<not> clock m (ticks m + 1 + k) - clock m (ticks m) < tmo"
  shows "sendCommandSHT command dPin cPin (m\<lparr>line := l\<rparr>) =
           (sendCommandSHT command dPin cPin m)\<lparr>line := l\<rparr> \<and>
         sendCommandSHT command dPin cPin m =
           m\<lparr>reads := reads m + 2,
             events := events m @
               command_events dPin cPin (dataInputMode m) (word_of_int command)\<rparr> \<and>
         (\<exists>j\<le>k. stops_at tmo dPin m j) \<and>
         (\<forall>j. stops_at tmo dPin m j \<longrightarrow>
            waitForResultSHT tmo dPin m =
              Some (m\<lparr>events := events m @ [PinMode dPin (dataInputMode m)],
                      reads := reads m + j + 1, ticks := ticks m + readings dPin m j\<rparr>)) \<and>
         (\<exists>j\<le>k. stops_at tmo (dataPin m) (m\<lparr>reads := reads m + 2\<rparr>) j) \<and>
         (\<forall>j. stops_at tmo (dataPin m) (m\<lparr>reads := reads m + 2\<rparr>) j \<longrightarrow>
            readTemperatureC tmo m =
              Some (fst (parseTemperatureC
                      (Some (as_int (INT_BITS m)
                         (accumulate
                            (samples (m\<lparr>reads := reads m + j + 3\<rparr>) (dataPin m) 16)))) m),
                    m\<lparr>temperatureRaw :=
                        Some (word_of_int
                          (accumulate
                             (samples (m\<lparr>reads := reads m + j + 3\<rparr>) (dataPin m) 16))),
                      reads := reads m + j + 19,
                      ticks := ticks m + readings (dataPin m) (m\<lparr>reads := reads m + 2\<rparr>) j,
                      events := events m @
                        command_events (dataPin m) (clockPin m) (dataInputMode m) 3 @
                        [PinMode (dataPin m) (dataInputMode m)] @
                        word_events (dataPin m) (clockPin m) (dataInputMode m) @
                        skip_events (dataPin m) (clockPin m)\<rparr>) \<and>
            readTemperatureF tmo m =
              Some (fst (parseTemperatureF
                      (Some (as_int (INT_BITS m)
                         (accumulate
                            (samples (m\<lparr>reads := reads m + j + 3\<rparr>) (dataPin m) 16)))) m),
                    m\<lparr>temperatureRaw :=
                        Some (word_of_int
                          (accumulate
                             (samples (m\<lparr>reads := reads m + j + 3\<rparr>) (dataPin m) 16))),
                      reads := reads m + j + 19,
                      ticks := ticks m + readings (dataPin m) (m\<lparr>reads := reads m + 2\<rparr>) j,
                      events := events m @
                        command_events (dataPin m) (clockPin m) (dataInputMode m) 3 @
                        [PinMode (dataPin m) (dataInputMode m)] @
                        word_events (dataPin m) (clockPin m) (dataInputMode m) @
                        skip_events (dataPin m) (clockPin m)\<rparr>) \<and>
            readHumidity tmo m =
              Some (fst (parseHumidity
                      (Some (as_int (INT_BITS m)
                         (accumulate
                            (samples (m\<lparr>reads := reads m + j + 3\<rparr>) (dataPin m) 16)))) m),
                    m\<lparr>reads := reads m + j + 19,
                      ticks := ticks m + readings (dataPin m) (m\<lparr>reads := reads m + 2\<rparr>) j,
                      events := events m @
                        command_events (dataPin m) (clockPin m) (dataInputMode m) 5 @
                        [PinMode (dataPin m) (dataInputMode m)] @
                        word_events (dataPin m) (clockPin m) (dataInputMode m) @
                        skip_events (dataPin m) (clockPin m)\<rparr>)) \<and>
         ((\<forall>n. line m (dataPin m) n) \<longrightarrow>
            (0 < wider m \<longrightarrow>
               (\<exists>s. readTemperatureC tmo m = Some (fst (parseTemperatureC (Some 65535) m), s)) \<and>
               (\<exists>s. readTemperatureF tmo m = Some (fst (parseTemperatureF (Some 65535) m), s)) \<and>
               (\<exists>s. readHumidity tmo m = Some (fst (parseHumidity (Some 65535) m), s))) \<and>
            (wider m = 0 \<longrightarrow>
               (\<exists>s. readTemperatureC tmo m = Some (fst (parseTemperatureC (Some (- 1)) m), s)) \<and>
               (\<exists>s. readTemperatureF tmo m = Some (fst (parseTemperatureF (Some (- 1)) m), s)) \<and>
               (\<exists>s. readHumidity tmo m = Some (fst (parseHumidity (Some (- 1)) m), s))))"
proof -
  have 1: "sendCommandSHT command dPin cPin (m\<lparr>line := l\<rparr>) =
           (sendCommandSHT command dPin cPin m)\<lparr>line := l\<rparr>"
    by (simp add: sendCommandSHT_eq)
  have 2: "sendCommandSHT command dPin cPin m =
           m\<lparr>reads := reads m + 2,
             events := events m @
               command_events dPin cPin (dataInputMode m) (word_of_int command)\<rparr>"
    by (rule sendCommandSHT_eq)
  from assms have 3: "\<exists>j\<le>k. stops_at tmo dPin m j"
    by (rule stops_at_exists)
  have 4: "\<forall>j. stops_at tmo dPin m j \<longrightarrow>
            waitForResultSHT tmo dPin m =
              Some (m\<lparr>events := events m @ [PinMode dPin (dataInputMode m)],
                      reads := reads m + j + 1, ticks := ticks m + readings dPin m j\<rparr>)"
    by (intro allI impI) (rule waitForResultSHT_stops)
  from assms have 5: "\<exists>j\<le>k. stops_at tmo (dataPin m) (m\<lparr>reads := reads m + 2\<rparr>) j"
    by (rule stops_at_request)
  have 6: "readTemperatureC tmo m =
              Some (fst (parseTemperatureC
                      (Some (as_int (INT_BITS m)
                         (accumulate
                            (samples (m\<lparr>reads := reads m + j + 3\<rparr>) (dataPin m) 16)))) m),
                    m\<lparr>temperatureRaw :=
                        Some (word_of_int
                          (accumulate
                             (samples (m\<lparr>reads := reads m + j + 3\<rparr>) (dataPin m) 16))),
                      reads := reads m + j + 19,
                      ticks := ticks m + readings (dataPin m) (m\<lparr>reads := reads m + 2\<rparr>) j,
                      events := events m @
                        command_events (dataPin m) (clockPin m) (dataInputMode m) 3 @
                        [PinMode (dataPin m) (dataInputMode m)] @
                        word_events (dataPin m) (clockPin m) (dataInputMode m) @
                        skip_events (dataPin m) (clockPin m)\<rparr>) \<and>
            readTemperatureF tmo m =
              Some (fst (parseTemperatureF
                      (Some (as_int (INT_BITS m)
                         (accumulate
                            (samples (m\<lparr>reads := reads m + j + 3\<rparr>) (dataPin m) 16)))) m),
                    m\<lparr>temperatureRaw :=
                        Some (word_of_int
                          (accumulate
                             (samples (m\<lparr>reads := reads m + j + 3\<rparr>) (dataPin m) 16))),
                      reads := reads m + j + 19,
                      ticks := ticks m + readings (dataPin m) (m\<lparr>reads := reads m + 2\<rparr>) j,
                      events := events m @
                        command_events (dataPin m) (clockPin m) (dataInputMode m) 3 @
                        [PinMode (dataPin m) (dataInputMode m)] @
                        word_events (dataPin m) (clockPin m) (dataInputMode m) @
                        skip_events (dataPin m) (clockPin m)\<rparr>) \<and>
            readHumidity tmo m =
              Some (fst (parseHumidity
                      (Some (as_int (INT_BITS m)
                         (accumulate
                            (samples (m\<lparr>reads := reads m + j + 3\<rparr>) (dataPin m) 16)))) m),
                    m\<lparr>reads := reads m + j + 19,
                      ticks := ticks m + readings (dataPin m) (m\<lparr>reads := reads m + 2\<rparr>) j,
                      events := events m @
                        command_events (dataPin m) (clockPin m) (dataInputMode m) 5 @
                        [PinMode (dataPin m) (dataInputMode m)] @
                        word_events (dataPin m) (clockPin m) (dataInputMode m) @
                        skip_events (dataPin m) (clockPin m)\<rparr>)"
    if "stops_at tmo (dataPin m) (m\<lparr>reads := reads m + 2\<rparr>) j" for j
    using readTemperatureC_stops [OF that] readTemperatureF_stops [OF that]
      readHumidity_stops [OF that]
    by (intro conjI)
  from 5 obtain j where j: "stops_at tmo (dataPin m) (m\<lparr>reads := reads m + 2\<rparr>) j"
    by blast
  have 7: "(\<exists>s. readTemperatureC tmo m = Some (fst (parseTemperatureC (Some v) m), s)) \<and>
           (\<exists>s. readTemperatureF tmo m = Some (fst (parseTemperatureF (Some v) m), s)) \<and>
           (\<exists>s. readHumidity tmo m = Some (fst (parseHumidity (Some v) m), s))"
    if "\<forall>n. line m (dataPin m) n" "as_int (INT_BITS m) 65535 = v" for v
    using that(2)
    by (simp add: readTemperatureC_stops [OF j] readTemperatureF_stops [OF j]
          readHumidity_stops [OF j] stuck_HIGH [OF that(1)])
  have 8: "(\<forall>n. line m (dataPin m) n) \<longrightarrow>
            (0 < wider m \<longrightarrow>
               (\<exists>s. readTemperatureC tmo m = Some (fst (parseTemperatureC (Some 65535) m), s)) \<and>
               (\<exists>s. readTemperatureF tmo m = Some (fst (parseTemperatureF (Some 65535) m), s)) \<and>
               (\<exists>s. readHumidity tmo m = Some (fst (parseHumidity (Some 65535) m), s))) \<and>
            (wider m = 0 \<longrightarrow>
               (\<exists>s. readTemperatureC tmo m = Some (fst (parseTemperatureC (Some (- 1)) m), s)) \<and>
               (\<exists>s. readTemperatureF tmo m = Some (fst (parseTemperatureF (Some (- 1)) m), s)) \<and>
               (\<exists>s. readHumidity tmo m = Some (fst (parseHumidity (Some (- 1)) m), s)))"
    using 7 as_int_65535 [of m] by blast
  from 6 have 9: "\<forall>j. stops_at tmo (dataPin m) (m\<lparr>reads := reads m + 2\<rparr>) j \<longrightarrow>
            readTemperatureC tmo m =
              Some (fst (parseTemperatureC
                      (Some (as_int (INT_BITS m)
                         (accumulate
                            (samples (m\<lparr>reads := reads m + j + 3\<rparr>) (dataPin m) 16)))) m),
                    m\<lparr>temperatureRaw :=
                        Some (word_of_int
                          (accumulate
                             (samples (m\<lparr>reads := reads m + j + 3\<rparr>) (dataPin m) 16))),
                      reads := reads m + j + 19,
                      ticks := ticks m + readings (dataPin m) (m\<lparr>reads := reads m + 2\<rparr>) j,
                      events := events m @
                        command_events (dataPin m) (clockPin m) (dataInputMode m) 3 @
                        [PinMode (dataPin m) (dataInputMode m)] @
                        word_events (dataPin m) (clockPin m) (dataInputMode m) @
                        skip_events (dataPin m) (clockPin m)\<rparr>) \<and>
            readTemperatureF tmo m =
              Some (fst (parseTemperatureF
                      (Some (as_int (INT_BITS m)
                         (accumulate
                            (samples (m\<lparr>reads := reads m + j + 3\<rparr>) (dataPin m) 16)))) m),
                    m\<lparr>temperatureRaw :=
                        Some (word_of_int
                          (accumulate
                             (samples (m\<lparr>reads := reads m + j + 3\<rparr>) (dataPin m) 16))),
                      reads := reads m + j + 19,
                      ticks := ticks m + readings (dataPin m) (m\<lparr>reads := reads m + 2\<rparr>) j,
                      events := events m @
                        command_events (dataPin m) (clockPin m) (dataInputMode m) 3 @
                        [PinMode (dataPin m) (dataInputMode m)] @
                        word_events (dataPin m) (clockPin m) (dataInputMode m) @
                        skip_events (dataPin m) (clockPin m)\<rparr>) \<and>
            readHumidity tmo m =
              Some (fst (parseHumidity
                      (Some (as_int (INT_BITS m)
                         (accumulate
                            (samples (m\<lparr>reads := reads m + j + 3\<rparr>) (dataPin m) 16)))) m),
                    m\<lparr>reads := reads m + j + 19,
                      ticks := ticks m + readings (dataPin m) (m\<lparr>reads := reads m + 2\<rparr>) j,
                      events := events m @
                        command_events (dataPin m) (clockPin m) (dataInputMode m) 5 @
                        [PinMode (dataPin m) (dataInputMode m)] @
                        word_events (dataPin m) (clockPin m) (dataInputMode m) @
                        skip_events (dataPin m) (clockPin m)\<rparr>)"
    by (intro allI impI)
  from 1 2 3 4 5 9 8 show ?thesis by (intro conjI)
qed

theorem faults_not_reported_witness:
  "\<not> clock (SHT1x 2 3 (unassigned (\<lambda>pin n. True) (\<lambda>n. word_of_nat n)))
        (ticks (SHT1x 2 3 (unassigned (\<lambda>pin n. True) (\<lambda>n. word_of_nat n))) + 1 + 2)
      - clock (SHT1x 2 3 (unassigned (\<lambda>pin n. True) (\<lambda>n. word_of_nat n)))
          (ticks (SHT1x 2 3 (unassigned (\<lambda>pin n. True) (\<lambda>n. word_of_nat n)))) < (3 :: 32 word) \<and>
   stops_at 3 2 (SHT1x 2 3 (unassigned (\<lambda>pin n. True) (\<lambda>n. word_of_nat n))\<lparr>reads := 2\<rparr>) 2 \<and>
   wider (SHT1x 2 3 (unassigned (\<lambda>pin n. True) (\<lambda>n. word_of_nat n))) = 0 \<and>
   (\<exists>s. readTemperatureC 3 (SHT1x 2 3 (unassigned (\<lambda>pin n. True) (\<lambda>n. word_of_nat n))) =
           Some (Some (- 40.11), s) \<and>
         temperatureRaw s = Some 65535 \<and> reads s = 21 \<and> ticks s = 4 \<and>
         events s =
           events (SHT1x 2 3 (unassigned (\<lambda>pin n. True) (\<lambda>n. word_of_nat n))) @
           command_events 2 3 INPUT 3 @ [PinMode 2 INPUT] @ word_events 2 3 INPUT @
           skip_events 2 3) \<and>
   (\<exists>s. readTemperatureF 3 (SHT1x 2 3 (unassigned (\<lambda>pin n. True) (\<lambda>n. word_of_nat n))) =
           Some (Some (- 40.218), s)) \<and>
   0 < wider (SHT1x 2 3 (unassigned (\<lambda>pin n. True) (\<lambda>n. word_of_nat n)\<lparr>wider := 16\<rparr>)) \<and>
   (\<exists>s. readTemperatureC 3
           (SHT1x 2 3 (unassigned (\<lambda>pin n. True) (\<lambda>n. word_of_nat n)\<lparr>wider := 16\<rparr>)) =
           Some (Some 615.25, s)) \<and>
   (\<exists>s. readTemperatureF 3
           (SHT1x 2 3 (unassigned (\<lambda>pin n. True) (\<lambda>n. word_of_nat n)\<lparr>wider := 16\<rparr>)) =
           Some (Some 1139.43, s))"
proof -
  let ?m = "SHT1x 2 3 (unassigned (\<lambda>pin n. True) (\<lambda>n. word_of_nat n))"
  let ?M = "SHT1x 2 3 (unassigned (\<lambda>pin n. True) (\<lambda>n. word_of_nat n)\<lparr>wider := 16\<rparr>)"
  have f: "dataPin ?m = 2" "clockPin ?m = 3" "dataInputMode ?m = INPUT" "reads ?m = 0"
    "ticks ?m = 0" "wider ?m = 0" "line ?m = (\<lambda>pin n. True)"
    "clock ?m = (\<lambda>n. word_of_nat n)"
    by (simp_all add: SHT1x_fields unassigned_def)
  have F: "dataPin ?M = 2" "reads ?M = 0" "ticks ?M = 0" "0 < wider ?M"
    "line ?M = (\<lambda>pin n. True)" "clock ?M = (\<lambda>n. word_of_nat n)"
    by (simp_all add: SHT1x_fields unassigned_def)
  have a: "\<not> clock ?m (ticks ?m + 1 + 2) - clock ?m (ticks ?m) < (3 :: 32 word)"
    by (simp add: f)
  have A: "\<not> clock ?M (ticks ?M + 1 + 2) - clock ?M (ticks ?M) < (3 :: 32 word)"
    by (simp add: F)
  have e: "(word_of_nat (1 + i) :: 32 word) - word_of_nat 0 < 3" if "i \<in> {0..<2}" for i
  proof -
    from that have "i = 0 \<or> i = 1" by auto
    then show ?thesis by auto
  qed
  have sa: "stops_at 3 (dataPin ?m) (?m\<lparr>reads := reads ?m + 2\<rparr>) 2"
    unfolding stops_at_def using e by (simp add: f)
  have b: "\<forall>n. line ?m (dataPin ?m) n" "\<forall>n. line ?M (dataPin ?M) n"
    by (simp_all add: f F)
  have c: "fst (parseTemperatureC (Some (- 1)) ?m) = Some (- 40.11)"
    "fst (parseTemperatureF (Some (- 1)) ?m) = Some (- 40.218)"
    "fst (parseTemperatureC (Some 65535) ?M) = Some 615.25"
    "fst (parseTemperatureF (Some 65535) ?M) = Some 1139.43"
    by (simp_all add: parseTemperatureC_def parseTemperatureF_def SHT1x_fields)
  have v: "as_int (INT_BITS ?m) 65535 = - 1"
    by (rule as_int_65535) (rule f)
  have acc: "accumulate (samples (?m\<lparr>reads := reads ?m + 2 + 3\<rparr>) (dataPin ?m) 16) = 65535"
    by (rule stuck_HIGH) (rule b)
  have rd: "readings (dataPin ?m) (?m\<lparr>reads := reads ?m + 2\<rparr>) 2 = 4"
    by (simp add: readings_def f)
  note t = faults_not_reported [OF a, of 0 0 0 "\<lambda>pin n. True"]
  note T = faults_not_reported [OF A, of 0 0 0 "\<lambda>pin n. True"]
  note t6 = t [THEN conjunct2, THEN conjunct2, THEN conjunct2, THEN conjunct2, THEN conjunct2,
      THEN conjunct1, THEN spec, THEN mp, OF sa]
  note t7 = t [THEN conjunct2, THEN conjunct2, THEN conjunct2, THEN conjunct2, THEN conjunct2,
      THEN conjunct2, THEN mp, OF b(1), THEN conjunct2, THEN mp, OF f(6)]
  note T7 = T [THEN conjunct2, THEN conjunct2, THEN conjunct2, THEN conjunct2, THEN conjunct2,
      THEN conjunct2, THEN mp, OF b(2), THEN conjunct1, THEN mp, OF F(4)]
  from t6 have "\<exists>s. readTemperatureC 3 ?m = Some (fst (parseTemperatureC (Some (- 1)) ?m), s) \<and>
         temperatureRaw s = Some 65535 \<and> reads s = 21 \<and> ticks s = 4 \<and>
         events s = events ?m @ command_events 2 3 INPUT 3 @ [PinMode 2 INPUT] @
           word_events 2 3 INPUT @ skip_events 2 3"
    unfolding acc v rd by (simp add: f)
  then have 1: "\<exists>s. readTemperatureC 3 ?m = Some (Some (- 40.11), s) \<and>
         temperatureRaw s = Some 65535 \<and> reads s = 21 \<and> ticks s = 4 \<and>
         events s = events ?m @ command_events 2 3 INPUT 3 @ [PinMode 2 INPUT] @
           word_events 2 3 INPUT @ skip_events 2 3"
    unfolding c .
  from t7 have 2: "\<exists>s. readTemperatureF 3 ?m = Some (Some (- 40.218), s)"
    unfolding c by blast
  from T7 have 3: "(\<exists>s. readTemperatureC 3 ?M = Some (Some 615.25, s)) \<and>
    (\<exists>s. readTemperatureF 3 ?M = Some (Some 1139.43, s))"
    unfolding c by blast
  from sa have sa': "stops_at 3 2 (?m\<lparr>reads := 2\<rparr>) 2" by (simp only: f(1,4) add_0)
  from a sa' f(6) 1 2 F(4) 3 show ?thesis by (intro conjI) blast+
qed

subsection \<open>The cached raw temperature\<close>

text \<open>
  Claim C9. Only a temperature read updates the cached raw temperature:
  \<open>readInTemperature\<close> stores the 16-bit word it reads into \<open>_temperatureRaw\<close> and
  returns that member: the same 16-bit word as an \<open>int\<close>, which is the number stored
  where \<open>int\<close> has more than 16 bits or the word is below 32768. \<open>readInHumidity\<close>,
  \<open>parseHumidity\<close> and \<open>readHumidity\<close> (and the requests and the temperature
  conversions) leave it as it is, so a second humidity read converts with the same
  cached temperature. The reads return, with these effects, whenever their wait stops
  at some poll.
\<close>

theorem temperatureRaw_frame:
  "(\<forall>raw s. readInTemperature tmo m = Some (raw, s) \<longrightarrow>
      (\<exists>m1. waitForResultSHT tmo (dataPin m) m = Some m1 \<and>
            raw = Some (fst (getData16SHT (dataPin m) (clockPin m) m1)) \<and>
            temperatureRaw s = Some (word_of_int (fst (getData16SHT (dataPin m) (clockPin m) m1))) \<and>
            raw = map_option (\<lambda>w. as_int (INT_BITS m) (uint w)) (temperatureRaw s) \<and>
            map_option word_of_int raw = temperatureRaw s \<and>
            (0 < wider m \<or> (\<exists>w. temperatureRaw s = Some w \<and> uint w < 32768) \<longrightarrow>
               raw = map_option uint (temperatureRaw s)))) \<and>
   (\<forall>j. stops_at tmo (dataPin m) m j \<longrightarrow>
      (\<exists>raw s. readInTemperature tmo m = Some (raw, s) \<and>
         temperatureRaw s =
           Some (word_of_int
             (accumulate (samples (m\<lparr>reads := reads m + j + 1\<rparr>) (dataPin m) 16)))) \<and>
      (\<exists>v s. readInHumidity tmo m = Some (v, s) \<and> temperatureRaw s = temperatureRaw m)) \<and>
   (\<forall>j. stops_at tmo (dataPin m) (m\<lparr>reads := reads m + 2\<rparr>) j \<longrightarrow>
      (\<exists>v s. readHumidity tmo m = Some (v, s) \<and> temperatureRaw s = temperatureRaw m)) \<and>
   (\<forall>v s. readInHumidity tmo m = Some (v, s) \<longrightarrow> temperatureRaw s = temperatureRaw m) \<and>
   (\<forall>v s. readHumidity tmo m = Some (v, s) \<longrightarrow>
      temperatureRaw s = temperatureRaw m \<and> (\<exists>raw. v = fst (parseHumidity (Some raw) m))) \<and>
   (\<forall>v s v' s'. readHumidity tmo m = Some (v, s) \<and> readHumidity tmo s = Some (v', s') \<longrightarrow>
      temperatureRaw s' = temperatureRaw m \<and> (\<exists>raw. v' = fst (parseHumidity (Some raw) m))) \<and>
   snd (parseHumidity hraw m) = m \<and>
   snd (parseTemperatureC traw m) = m \<and>
   snd (parseTemperatureF traw m) = m \<and>
   temperatureRaw (requestHumidity m) = temperatureRaw m \<and>
   temperatureRaw (requestTemperature m) = temperatureRaw m"
proof (intro conjI allI impI)
  fix raw s
  assume r: "readInTemperature tmo m = Some (raw, s)"
  then obtain m1 where w: "waitForResultSHT tmo (dataPin m) m = Some m1"
    by (auto simp: readInTemperature_eq split: option.splits)
  let ?a = "accumulate (samples m1 (dataPin m) 16)"
  from r w have raw: "raw = Some (as_int (INT_BITS m) ?a)"
    and st: "temperatureRaw s = Some (word_of_int ?a)"
    by (auto simp: readInTemperature_eq)
  have b: "INT_BITS m1 = INT_BITS m" using w by (rule waitForResultSHT_fields)
  have g: "fst (getData16SHT (dataPin m) (clockPin m) m1) = as_int (INT_BITS m) ?a"
    by (simp add: getData16SHT_eq b)
  have u: "uint (word_of_int ?a :: 16 word) = ?a" by (rule uint_word16)
  have c: "(word_of_int (as_int (INT_BITS m) ?a) :: 16 word) = word_of_int ?a"
    by (rule word_of_as_int)
  have rg: "0 \<le> ?a" "?a < 65536" using accumulate_16_range [of m1 "dataPin m"] by simp_all
  have 1: "raw = Some (fst (getData16SHT (dataPin m) (clockPin m) m1))"
    by (simp add: raw g)
  have 2: "temperatureRaw s = Some (word_of_int (fst (getData16SHT (dataPin m) (clockPin m) m1)))"
    by (simp add: st g c)
  have 3: "raw = map_option (\<lambda>w. as_int (INT_BITS m) (uint w)) (temperatureRaw s)"
    by (simp add: raw st u)
  have 4: "map_option word_of_int raw = temperatureRaw s"
    by (simp add: raw st c)
  have 5: "raw = map_option uint (temperatureRaw s)"
    if "0 < wider m \<or> (\<exists>w. temperatureRaw s = Some w \<and> uint w < 32768)"
  proof -
    from that have "0 < wider m \<or> ?a < 32768" by (auto simp: st u)
    then have "as_int (INT_BITS m) ?a = ?a"
    proof
      assume "0 < wider m"
      then show ?thesis using rg by (rule as_int_wide)
    next
      assume "?a < 32768"
      with rg(1) show ?thesis by (rule as_int_small)
    qed
    then show ?thesis by (simp add: raw st u)
  qed
  from w 1 2 3 4 5
  show "\<exists>m1. waitForResultSHT tmo (dataPin m) m = Some m1 \<and>
            raw = Some (fst (getData16SHT (dataPin m) (clockPin m) m1)) \<and>
            temperatureRaw s = Some (word_of_int (fst (getData16SHT (dataPin m) (clockPin m) m1))) \<and>
            raw = map_option (\<lambda>w. as_int (INT_BITS m) (uint w)) (temperatureRaw s) \<and>
            map_option word_of_int raw = temperatureRaw s \<and>
            (0 < wider m \<or> (\<exists>w. temperatureRaw s = Some w \<and> uint w < 32768) \<longrightarrow>
               raw = map_option uint (temperatureRaw s))"
    by blast
next
  fix j
  assume sa: "stops_at tmo (dataPin m) m j"
  show "\<exists>raw s. readInTemperature tmo m = Some (raw, s) \<and>
         temperatureRaw s =
           Some (word_of_int
             (accumulate (samples (m\<lparr>reads := reads m + j + 1\<rparr>) (dataPin m) 16)))"
    by (simp add: readInTemperature_stops [OF sa])
  show "\<exists>v s. readInHumidity tmo m = Some (v, s) \<and> temperatureRaw s = temperatureRaw m"
    by (simp add: readInHumidity_stops [OF sa])
next
  fix j
  assume sa: "stops_at tmo (dataPin m) (m\<lparr>reads := reads m + 2\<rparr>) j"
  show "\<exists>v s. readHumidity tmo m = Some (v, s) \<and> temperatureRaw s = temperatureRaw m"
    by (simp add: readHumidity_stops [OF sa])
next
  fix v s
  assume "readInHumidity tmo m = Some (v, s)"
  then show "temperatureRaw s = temperatureRaw m"
    by (auto simp: readInHumidity_eq split: option.splits)
next
  fix v s
  assume "readHumidity tmo m = Some (v, s)"
  then show "temperatureRaw s = temperatureRaw m" "\<exists>raw. v = fst (parseHumidity (Some raw) m)"
    by (auto simp: readHumidity_eq split: option.splits)
next
  fix v s v' s'
  assume h: "readHumidity tmo m = Some (v, s) \<and> readHumidity tmo s = Some (v', s')"
  then have h1: "readHumidity tmo m = Some (v, s)" and h2: "readHumidity tmo s = Some (v', s')"
    by simp_all
  from h1 have s: "temperatureRaw s = temperatureRaw m" "D1C s = D1C m" "D2C s = D2C m"
    "wider s = wider m"
    by (auto simp: readHumidity_eq split: option.splits)
  from h2 obtain raw where "temperatureRaw s' = temperatureRaw s" "v' = fst (parseHumidity (Some raw) s)"
    by (auto simp: readHumidity_eq [of tmo s] split: option.splits)
  then have "temperatureRaw s' = temperatureRaw m" "v' = fst (parseHumidity (Some raw) m)"
    by (simp_all add: s parseHumidity_same [OF s])
  then show "temperatureRaw s' = temperatureRaw m" "\<exists>raw. v' = fst (parseHumidity (Some raw) m)"
    by blast+
qed (simp_all add: requestHumidity_eq requestTemperature_eq)

theorem temperatureRaw_frame_witness:
  "stops_at 1000 2 (SHT1x 2 3 (unassigned (\<lambda>pin n. even n) (\<lambda>n. 0))) 1 \<and>
   (\<exists>s. readInTemperature 1000 (SHT1x 2 3 (unassigned (\<lambda>pin n. even n) (\<lambda>n. 0))) =
          Some (Some (- 21846), s) \<and>
        temperatureRaw s = Some 43690 \<and>
        stops_at 1000 2 (s\<lparr>reads := reads s + 2\<rparr>) 1 \<and>
        (\<exists>v s'. readHumidity 1000 s = Some (v, s') \<and> temperatureRaw s' = Some 43690)) \<and>
   0 < wider (SHT1x 2 3 (unassigned (\<lambda>pin n. even n) (\<lambda>n. 0)\<lparr>wider := 16\<rparr>)) \<and>
   (\<exists>s. readInTemperature 1000
          (SHT1x 2 3 (unassigned (\<lambda>pin n. even n) (\<lambda>n. 0)\<lparr>wider := 16\<rparr>)) =
          Some (Some 43690, s) \<and>
        temperatureRaw s = Some 43690)"
proof -
  let ?m = "SHT1x 2 3 (unassigned (\<lambda>pin n. even n) (\<lambda>n. 0))"
  let ?M = "SHT1x 2 3 (unassigned (\<lambda>pin n. even n) (\<lambda>n. 0)\<lparr>wider := 16\<rparr>)"
  have f: "line ?m = (\<lambda>pin n. even n)" "clock ?m = (\<lambda>n. 0)" "reads ?m = 0" "ticks ?m = 0"
    "dataPin ?m = 2" "wider ?m = 0"
    by (simp_all add: SHT1x_fields unassigned_def)
  have F: "line ?M = (\<lambda>pin n. even n)" "clock ?M = (\<lambda>n. 0)" "reads ?M = 0" "ticks ?M = 0"
    "dataPin ?M = 2" "0 < wider ?M"
    by (simp_all add: SHT1x_fields unassigned_def)
  have sa: "stops_at 1000 (dataPin ?m) ?m 1" and SA: "stops_at 1000 (dataPin ?M) ?M 1"
    by (simp_all add: stops_at_def f F)
  have a: "accumulate (samples (?m\<lparr>reads := reads ?m + 1 + 1\<rparr>) (dataPin ?m) 16) = 43690"
    "accumulate (samples (?M\<lparr>reads := reads ?M + 1 + 1\<rparr>) (dataPin ?M) 16) = 43690"
    by (rule samples_alternating; simp add: f F)+
  have w: "(word_of_int 43690 :: 16 word) = 43690" "uint (43690 :: 16 word) = 43690"
    by simp_all
  have v: "as_int (INT_BITS ?m) 43690 = - 21846"
    using as_int_16 [of ?m 43690] by (simp add: f)
  note t = temperatureRaw_frame [of 1000 ?m]
  note T = temperatureRaw_frame [of 1000 ?M]
  note t1 = t [THEN conjunct1]
  note t2 = t [THEN conjunct2, THEN conjunct1, THEN spec, THEN mp, OF sa, THEN conjunct1]
  note T1 = T [THEN conjunct1]
  note T2 = T [THEN conjunct2, THEN conjunct1, THEN spec, THEN mp, OF SA, THEN conjunct1]
  from t2 obtain raw s where s: "readInTemperature 1000 ?m = Some (raw, s)"
    "temperatureRaw s = Some 43690"
    unfolding a w by blast
  from t1 s(1) have "raw = map_option (\<lambda>w. as_int (INT_BITS ?m) (uint w)) (temperatureRaw s)"
    by blast
  then have raw: "raw = Some (- 21846)"
    by (simp add: s(2) v)
  from readInTemperature_stops [OF sa] s(1)
  have sf: "line s = (\<lambda>pin n. even n)" "clock s = (\<lambda>n. 0)" "reads s = 18" "dataPin s = 2"
    by (auto simp: f)
  have sb: "stops_at 1000 (dataPin s) (s\<lparr>reads := reads s + 2\<rparr>) 1"
    by (simp add: stops_at_def sf)
  note h = temperatureRaw_frame [of 1000 s, THEN conjunct2, THEN conjunct2, THEN conjunct1,
      THEN spec, THEN mp, OF sb]
  from h s(2) have hh: "\<exists>v s'. readHumidity 1000 s = Some (v, s') \<and> temperatureRaw s' = Some 43690"
    by simp
  from sb have sb': "stops_at 1000 2 (s\<lparr>reads := reads s + 2\<rparr>) 1"
    by (simp only: sf(4))
  from T2 obtain raw' s' where s': "readInTemperature 1000 ?M = Some (raw', s')"
    "temperatureRaw s' = Some 43690"
    unfolding a w by blast
  from T1 s'(1) F(6) have "raw' = map_option uint (temperatureRaw s')"
    by blast
  then have raw': "raw' = Some 43690"
    by (simp add: s'(2))
  from sa have sa': "stops_at 1000 2 ?m 1" by (simp only: f(5))
  from s raw sb' hh have 1: "\<exists>s. readInTemperature 1000 ?m = Some (Some (- 21846), s) \<and>
        temperatureRaw s = Some 43690 \<and>
        stops_at 1000 2 (s\<lparr>reads := reads s + 2\<rparr>) 1 \<and>
        (\<exists>v s'. readHumidity 1000 s = Some (v, s') \<and> temperatureRaw s' = Some 43690)"
    by blast
  from s' raw' have 2: "\<exists>s. readInTemperature 1000 ?M = Some (Some 43690, s) \<and>
        temperatureRaw s = Some 43690"
    by blast
  from sa' 1 F(6) 2 show ?thesis by (intro conjI)
qed

subsection \<open>Voltages below the table\<close>

text \<open>
  Claim C10. For every constructor voltage at most 2.5 no iteration of the loop
  satisfies \<open>voltage > vals[i]\<close>: \<open>_setConversionCoeffs\<close> assigns the slopes
  \<open>_D2C\<close> and \<open>_D2F\<close> and nothing else, so \<open>_D1C\<close> and \<open>_D1F\<close> are what
  they were before the constructor, and on an object whose storage was never assigned
  every later \<open>parseTemperatureC\<close>, \<open>parseTemperatureF\<close> and \<open>parseHumidity\<close>
  reads an offset that was never assigned.
\<close>

theorem setConversionCoeffs_below_table:
  assumes "voltage \<le> 2.5"
    and "later tmo (SHT1x_voltage dPin cPin voltage intPullup m) s"
  shows "(\<forall>i\<in>{1..<VALS_IN_TABLE}. \<not> voltage > vals ! i) \<and>
         firstBracket voltage = None \<and>
         setConversionCoeffs voltage m = m\<lparr>D2C := Some 0.01, D2F := Some 0.018\<rparr> \<and>
         D2C s = Some 0.01 \<and> D2F s = Some 0.018 \<and> D1C s = D1C m \<and> D1F s = D1F m \<and>
         (D1C m = None \<and> D1F m = None \<longrightarrow>
            fst (parseTemperatureC raw s) = None \<and>
            fst (parseTemperatureF raw s) = None \<and>
            fst (parseHumidity raw s) = None)"
proof -
  from assms(1) have n: "firstBracket voltage = None"
    by (simp add: firstBracket_cases)
  from firstBracket_None [OF n] have 1: "\<forall>i\<in>{1..<VALS_IN_TABLE}. \<not> voltage > vals ! i"
    by simp
  have c: "D2C (SHT1x_voltage dPin cPin voltage intPullup m) = Some 0.01"
    "D2F (SHT1x_voltage dPin cPin voltage intPullup m) = Some 0.018"
    "D1C (SHT1x_voltage dPin cPin voltage intPullup m) = D1C m"
    "D1F (SHT1x_voltage dPin cPin voltage intPullup m) = D1F m"
    by (simp_all add: SHT1x_voltage_def setConversionCoeffs_None [OF n])
  from later_frame [OF assms(2)] c
  have s: "D2C s = Some 0.01" "D2F s = Some 0.018" "D1C s = D1C m" "D1F s = D1F m"
    by simp_all
  have "fst (parseTemperatureC raw s) = None \<and> fst (parseTemperatureF raw s) = None \<and>
        fst (parseHumidity raw s) = None" if "D1C m = None \<and> D1F m = None"
    using that s by (simp add: parseTemperatureC_def parseTemperatureF_def parseHumidity_def Let_def)
  with 1 n s show ?thesis
    by (simp add: setConversionCoeffs_None [OF n])
qed

theorem setConversionCoeffs_below_table_witness:
  "(2.5::real) \<le> 2.5 \<and>
   later 1000 (SHT1x_voltage 2 3 2.5 False (unassigned (\<lambda>pin n. True) (\<lambda>n. 0)))
     (requestTemperature (SHT1x_voltage 2 3 2.5 False (unassigned (\<lambda>pin n. True) (\<lambda>n. 0)))) \<and>
   D1C (unassigned (\<lambda>pin n. True) (\<lambda>n. 0)) = None \<and>
   D1F (unassigned (\<lambda>pin n. True) (\<lambda>n. 0)) = None \<and>
   \<not> (2.5::real) > vals ! 1 \<and> \<not> (2.5::real) > vals ! 2 \<and>
   \<not> (2.5::real) > vals ! 3 \<and> \<not> (2.5::real) > vals ! 4 \<and>
   D2C (requestTemperature (SHT1x_voltage 2 3 2.5 False (unassigned (\<lambda>pin n. True) (\<lambda>n. 0)))) =
     Some 0.01 \<and>
   D1C (requestTemperature (SHT1x_voltage 2 3 2.5 False (unassigned (\<lambda>pin n. True) (\<lambda>n. 0)))) =
     None \<and>
   fst (parseTemperatureC (Some 6510)
     (requestTemperature (SHT1x_voltage 2 3 2.5 False (unassigned (\<lambda>pin n. True) (\<lambda>n. 0))))) =
     None \<and>
   fst (parseTemperatureF (Some 6510)
     (requestTemperature (SHT1x_voltage 2 3 2.5 False (unassigned (\<lambda>pin n. True) (\<lambda>n. 0))))) =
     None \<and>
   fst (parseHumidity (Some 1000)
     (requestTemperature (SHT1x_voltage 2 3 2.5 False (unassigned (\<lambda>pin n. True) (\<lambda>n. 0))))) =
     None"
proof -
  let ?U = "unassigned (\<lambda>pin n. True) (\<lambda>n. 0)"
  let ?m = "SHT1x_voltage 2 3 2.5 False ?U"
  have v: "(2.5::real) \<le> 2.5" by simp
  have l: "later 1000 ?m (requestTemperature ?m)"
    by (intro later.after_requestTemperature later.now)
  have u: "D1C ?U = None" "D1F ?U = None" by (simp_all add: unassigned_def)
  have t: "\<not> (2.5::real) > vals ! 1" "\<not> (2.5::real) > vals ! 2"
    "\<not> (2.5::real) > vals ! 3" "\<not> (2.5::real) > vals ! 4"
    by (simp_all add: vals_def)
  note T = setConversionCoeffs_below_table [OF v l]
  from T [of "Some 6510"] T [of "Some 1000"] u
  have "D2C (requestTemperature ?m) = Some 0.01" "D1C (requestTemperature ?m) = None"
    "fst (parseTemperatureC (Some 6510) (requestTemperature ?m)) = None"
    "fst (parseTemperatureF (Some 6510) (requestTemperature ?m)) = None"
    "fst (parseHumidity (Some 1000) (requestTemperature ?m)) = None"
    by simp_all
  with v l u t show ?thesis by simp
qed

end
